theory Spec2Isabelle
  imports Complex_Main "HOL-Library.AList" "HOL-Library.Multiset"
begin

text \<open>
  A model of the settings core of the Better-Moodle userscript: the typed setting
  descriptors with their form controls, the registry with its disabled states, the
  ticks and labels of sliders, the import of a settings file (all of
  redesign.user.js and src/_lib/Components.tsx), and the migration of the storage
  (src/migrateStorage.ts). The store of the userscript manager, the form controls of
  the page and the values of JavaScript are the environment of that code; they are
  modelled as far as the code uses them.
\<close>

section \<open>JavaScript values\<close>

text \<open>
  The values that travel between the userscript, the key-value store of the userscript
  manager and the form widgets. Numbers are restricted to whole numbers (\<open>JNum\<close>) and
  the not-a-number value (\<open>JNaN\<close>); fractions, infinities and the rounding of doubles
  are outside this model. A double holds every whole number up to
  \<open>Number.MAX_SAFE_INTEGER\<close> exactly, and the conversions below between numbers and
  texts are those of JavaScript on that range; statements about numbers are made for
  it. Objects are association lists in property order.
\<close>

datatype jsval =
    JUndefined
  | JNull
  | JBool bool
  | JNum int
  | JNaN
  | JStr string
  | JArr "jsval list"
  | JObj "(string \<times> jsval) list"

datatype error = TypeError | SyntaxError

text \<open>\<open>Number.isSafeInteger\<close> on a whole number.\<close>

definition isSafeInteger :: "int \<Rightarrow> bool" where
  "isSafeInteger n = (\<bar>n\<bar> \<le> 9007199254740991)"

text \<open>Truthiness (\<open>ToBoolean\<close>): what \<open>if (v)\<close> and \<open>!v\<close> test.\<close>

fun truthy :: "jsval \<Rightarrow> bool" where
  "truthy JUndefined = False"
| "truthy JNull = False"
| "truthy (JBool b) = b"
| "truthy (JNum n) = (n \<noteq> 0)"
| "truthy JNaN = False"
| "truthy (JStr s) = (s \<noteq> [])"
| "truthy (JArr xs) = True"
| "truthy (JObj kvs) = True"

subsection \<open>Decimal numerals\<close>

definition digit_char :: "nat \<Rightarrow> char" where
  "digit_char d = ''0123456789'' ! (d mod 10)"

fun show_nat :: "nat \<Rightarrow> string" where
  "show_nat n = (if n < 10 then [digit_char n] else show_nat (n div 10) @ [digit_char (n mod 10)])"

declare show_nat.simps [simp del]

text \<open>\<open>Number.prototype.toString\<close> on a whole number of the safe range: its numeral.\<close>

definition show_int :: "int \<Rightarrow> string" where
  "show_int i = (if i < 0 then CHR ''-'' # show_nat (nat (- i)) else show_nat (nat i))"

definition is_digit :: "char \<Rightarrow> bool" where
  "is_digit c = (c \<in> set ''0123456789'')"

definition digit_val :: "char \<Rightarrow> nat" where
  "digit_val c = (of_char c :: nat) - 48"

definition parse_nat :: "string \<Rightarrow> nat option" where
  "parse_nat s = (if s \<noteq> [] \<and> list_all is_digit s
                  then Some (foldl (\<lambda>acc c. 10 * acc + digit_val c) 0 s) else None)"

definition is_space :: "char \<Rightarrow> bool" where
  "is_space c = (c \<in> set [CHR '' '', CHR 0x09, CHR 0x0A, CHR 0x0B, CHR 0x0C, CHR 0x0D])"

definition trim :: "string \<Rightarrow> string" where
  "trim s = rev (dropWhile is_space (rev (dropWhile is_space s)))"

text \<open>
  \<open>Number(s)\<close> on a string: surrounding white space is dropped, the empty string is 0,
  an optionally signed decimal numeral is its value. Every other text is mapped to
  \<open>JNaN\<close>, as JavaScript does for text that is no numeric literal. The function is
  that of JavaScript on these texts and on the numerals of the safe range. It is not on
  the numeric literals this model has no value for: a fraction or an exponent
  (\<open>1.5\<close>, \<open>1e3\<close>), a hexadecimal, octal or binary literal, \<open>Infinity\<close>, and a
  numeral beyond the safe range, which JavaScript rounds to a double. No statement
  below is made about such a text.
\<close>

definition StringToNumber :: "string \<Rightarrow> jsval" where
  "StringToNumber s =
     (let t = trim s in
      if t = [] then JNum 0
      else if hd t = CHR ''-'' then (case parse_nat (tl t) of Some n \<Rightarrow> JNum (- int n) | None \<Rightarrow> JNaN)
      else if hd t = CHR ''+'' then (case parse_nat (tl t) of Some n \<Rightarrow> JNum (int n) | None \<Rightarrow> JNaN)
      else (case parse_nat t of Some n \<Rightarrow> JNum (int n) | None \<Rightarrow> JNaN))"

fun join :: "string \<Rightarrow> string list \<Rightarrow> string" where
  "join sep [] = []"
| "join sep [x] = x"
| "join sep (x # y # ys) = x @ sep @ join sep (y # ys)"

text \<open>\<open>String(v)\<close>: what a widget receives when a value is assigned to its \<open>value\<close>.\<close>

fun ToString :: "jsval \<Rightarrow> string" where
  "ToString JUndefined = ''undefined''"
| "ToString JNull = ''null''"
| "ToString (JBool b) = (if b then ''true'' else ''false'')"
| "ToString (JNum n) = show_int n"
| "ToString JNaN = ''NaN''"
| "ToString (JStr s) = s"
| "ToString (JArr xs) =
     join '','' (map (\<lambda>x. case x of JUndefined \<Rightarrow> [] | JNull \<Rightarrow> [] | _ \<Rightarrow> ToString x) xs)"
| "ToString (JObj kvs) = ''[object Object]''"

text \<open>\<open>Number(v)\<close>.\<close>

fun ToNumber :: "jsval \<Rightarrow> jsval" where
  "ToNumber JUndefined = JNaN"
| "ToNumber JNull = JNum 0"
| "ToNumber (JBool b) = JNum (if b then 1 else 0)"
| "ToNumber (JNum n) = JNum n"
| "ToNumber JNaN = JNaN"
| "ToNumber (JStr s) = StringToNumber s"
| "ToNumber (JArr xs) = StringToNumber (ToString (JArr xs))"
| "ToNumber (JObj kvs) = JNaN"

text \<open>\<open>v < n\<close> for a number \<open>n\<close>: the left operand is converted, and NaN compares false.\<close>

definition js_lt_num :: "jsval \<Rightarrow> int \<Rightarrow> bool" where
  "js_lt_num v n = (case ToNumber v of JNum m \<Rightarrow> m < n | _ \<Rightarrow> False)"

section \<open>The key-value store of the userscript manager\<close>

text \<open>
  \<open>GM_getValue\<close>, \<open>GM_setValue\<close>, \<open>GM_deleteValue\<close> and \<open>GM_listValues\<close> act on
  a store of keys and values. The model keeps, beside the contents, the sequence of
  calls made, oldest first, so that statements about which keys were looked up,
  written or deleted can be made.
\<close>

datatype gm_op = OpGet string | OpSet string jsval | OpDelete string | OpList

record gm =
  kv :: "(string \<times> jsval) list"
  trace :: "gm_op list"

definition GM_getValue :: "string \<Rightarrow> jsval \<Rightarrow> gm \<Rightarrow> jsval \<times> gm" where
  "GM_getValue key defaultValue s =
     ((case map_of (kv s) key of Some v \<Rightarrow> v | None \<Rightarrow> defaultValue),
      s\<lparr>trace := trace s @ [OpGet key]\<rparr>)"

definition GM_setValue :: "string \<Rightarrow> jsval \<Rightarrow> gm \<Rightarrow> gm" where
  "GM_setValue key v s = s\<lparr>kv := AList.update key v (kv s), trace := trace s @ [OpSet key v]\<rparr>"

definition GM_deleteValue :: "string \<Rightarrow> gm \<Rightarrow> gm" where
  "GM_deleteValue key s = s\<lparr>kv := AList.delete key (kv s), trace := trace s @ [OpDelete key]\<rparr>"

definition GM_listValues :: "gm \<Rightarrow> string list \<times> gm" where
  "GM_listValues s = (map fst (kv s), s\<lparr>trace := trace s @ [OpList]\<rparr>)"

text \<open>The calls of a trace that change the store, and the keys it looked up.\<close>

fun is_mutation :: "gm_op \<Rightarrow> bool" where
  "is_mutation (OpSet k v) = True"
| "is_mutation (OpDelete k) = True"
| "is_mutation (OpGet k) = False"
| "is_mutation OpList = False"

definition mutations :: "gm_op list \<Rightarrow> gm_op list" where
  "mutations ops = filter is_mutation ops"

fun looked_up :: "gm_op list \<Rightarrow> string list" where
  "looked_up [] = []"
| "looked_up (OpGet k # ops) = k # looked_up ops"
| "looked_up (_ # ops) = looked_up ops"

definition empty_store :: gm where
  "empty_store = \<lparr>kv = [], trace = []\<rparr>"

section \<open>Storage migration (src/migrateStorage.ts)\<close>

definition STORAGE_VERSION_KEY :: string where
  "STORAGE_VERSION_KEY = ''storageVersion''"

definition CURRENT_STORAGE_VERSION :: int where
  "CURRENT_STORAGE_VERSION = 2"

definition STORAGE_V2_SEEN_SETTINGS_KEY :: string where
  "STORAGE_V2_SEEN_SETTINGS_KEY = ''seenSettings''"

text \<open>
  \<open>getSettingKey\<close> is imported from the helpers module, which is not among the
  sources; the runner takes it as a parameter \<open>gsk\<close>.
\<close>

definition STORAGE_V2_LANGUAGE_KEY :: "(string \<Rightarrow> string) \<Rightarrow> string" where
  "STORAGE_V2_LANGUAGE_KEY gsk = gsk ''general.language''"

definition LEGACY_SEEN_SETTINGS_KEY :: string where
  "LEGACY_SEEN_SETTINGS_KEY = ''better-moodle-seen-settings''"

definition LEGACY_LANGUAGE_KEY :: string where
  "LEGACY_LANGUAGE_KEY = ''better-moodle-settings.general.language''"

text \<open>
  Modelled from the spec: \<open>isNewInstallation\<close> is a constant of the helpers module,
  which is not among the sources. The spec describes a fresh installation as the store
  being entirely empty.
\<close>

definition isNewInstallation :: "gm \<Rightarrow> bool" where
  "isNewInstallation s = (fst (GM_listValues s) = [])"

definition getAndDelete :: "string \<Rightarrow> jsval \<Rightarrow> gm \<Rightarrow> jsval \<times> gm" where
  "getAndDelete key defaultValue s =
     (let (v, s1) = GM_getValue key defaultValue s;
          s2 = GM_deleteValue key s1
      in (v, s2))"

text \<open>
  \<open>oldSeenSettings.length\<close> used as a condition. Reading a property of
  \<open>undefined\<close> or \<open>null\<close> throws; a value without that property gives
  \<open>undefined\<close>, which is falsy.
\<close>

fun length_truthy :: "jsval \<Rightarrow> error + bool" where
  "length_truthy JUndefined = Inl TypeError"
| "length_truthy JNull = Inl TypeError"
| "length_truthy (JArr xs) = Inr (xs \<noteq> [])"
| "length_truthy (JStr s) = Inr (s \<noteq> [])"
| "length_truthy (JObj kvs) = Inr (case map_of kvs ''length'' of Some v \<Rightarrow> truthy v | None \<Rightarrow> False)"
| "length_truthy v = Inr False"

text \<open>
  The outcome of a run is the store it leaves and, when an exception escaped, the
  exception. The step to version 2:
\<close>

definition migrate_to_v2 :: "(string \<Rightarrow> string) \<Rightarrow> gm \<Rightarrow> error option \<times> gm" where
  "migrate_to_v2 gsk s =
     (let (oldSeenSettings, s1) = getAndDelete LEGACY_SEEN_SETTINGS_KEY (JArr []) s in
      case length_truthy oldSeenSettings of
        Inl e \<Rightarrow> (Some e, s1)
      | Inr nonempty \<Rightarrow>
          (let s2 = (if nonempty then GM_setValue STORAGE_V2_SEEN_SETTINGS_KEY oldSeenSettings s1
                     else s1);
               (oldLanguage, s3) = getAndDelete LEGACY_LANGUAGE_KEY JUndefined s2;
               s4 = (if truthy oldLanguage then GM_setValue (STORAGE_V2_LANGUAGE_KEY gsk) oldLanguage s3
                     else s3)
           in (None, s4)))"

definition migrateStorage :: "bool \<Rightarrow> (string \<Rightarrow> string) \<Rightarrow> gm \<Rightarrow> error option \<times> gm" where
  "migrateStorage newInstallation gsk s =
     (let (oldStorageVersion, s1) = GM_getValue STORAGE_VERSION_KEY (JNum 0) s in
      if oldStorageVersion = JNum CURRENT_STORAGE_VERSION \<or> newInstallation then (None, s1)
      else
        (case (if js_lt_num oldStorageVersion 2 then migrate_to_v2 gsk s1 else (None, s1)) of
           (Some e, s2) \<Rightarrow> (Some e, s2)
         | (None, s2) \<Rightarrow> (None, GM_setValue STORAGE_VERSION_KEY (JNum CURRENT_STORAGE_VERSION) s2)))"

text \<open>The runner as it starts up: the fresh-installation flag is taken from the store.\<close>

definition runMigration :: "(string \<Rightarrow> string) \<Rightarrow> gm \<Rightarrow> error option \<times> gm" where
  "runMigration gsk s = migrateStorage (isNewInstallation s) gsk s"

section \<open>Form widgets\<close>

text \<open>
  The descriptors keep their pending value in form controls of the page. The model of a
  control holds the properties the descriptors read and write. Assigning to
  \<open>value\<close> converts to a string and applies the sanitisation of the control's type:
  a text field drops line breaks, a number field keeps only a valid floating-point
  number and is otherwise emptied, a range field clamps to its bounds and rounds to its
  step (modelled for whole numbers), and a checkbox stores the string beside its
  \<open>checked\<close> state without touching that state.
\<close>

datatype input_type = TypeText | TypeCheckbox | TypeNumber | TypeRange

record input_el =
  el_type :: input_type
  el_value :: string
  el_checked :: bool
  el_disabled :: bool
  el_classes :: "string list"
  el_min :: "int option"
  el_max :: "int option"
  el_step :: "int option"

definition createInput :: input_el where
  "createInput = \<lparr>el_type = TypeText, el_value = [], el_checked = False, el_disabled = False,
                   el_classes = [], el_min = None, el_max = None, el_step = None\<rparr>"

definition class_add :: "string \<Rightarrow> string list \<Rightarrow> string list" where
  "class_add c cs = (if c \<in> set cs then cs else cs @ [c])"

definition class_remove :: "string \<Rightarrow> string list \<Rightarrow> string list" where
  "class_remove c cs = filter (\<lambda>x. x \<noteq> c) cs"

definition class_replace :: "string \<Rightarrow> string \<Rightarrow> string list \<Rightarrow> string list" where
  "class_replace old new cs =
     (if old \<in> set cs then rev (remdups (rev (map (\<lambda>x. if x = old then new else x) cs))) else cs)"

definition strip_newlines :: "string \<Rightarrow> string" where
  "strip_newlines s = filter (\<lambda>c. c \<noteq> CHR 0x0A \<and> c \<noteq> CHR 0x0D) s"

text \<open>
  A valid floating-point number, as a number field keeps it: an optional minus sign,
  digits or a fraction or both, and an optional exponent.
\<close>

definition valid_exponent :: "string \<Rightarrow> bool" where
  "valid_exponent s =
     (case s of
        [] \<Rightarrow> True
      | c # t \<Rightarrow>
          (c = CHR ''e'' \<or> c = CHR ''E'') \<and>
          (let u = (case t of [] \<Rightarrow> [] | d # r \<Rightarrow> if d = CHR ''+'' \<or> d = CHR ''-'' then r else t)
           in u \<noteq> [] \<and> list_all is_digit u))"

definition valid_float :: "string \<Rightarrow> bool" where
  "valid_float s =
     (let s1 = (case s of [] \<Rightarrow> [] | c # t \<Rightarrow> if c = CHR ''-'' then t else s);
          whole = takeWhile is_digit s1;
          r1 = dropWhile is_digit s1
      in case r1 of
           [] \<Rightarrow> whole \<noteq> []
         | c # t \<Rightarrow>
             if c = CHR ''.''
             then takeWhile is_digit t \<noteq> [] \<and> valid_exponent (dropWhile is_digit t)
             else whole \<noteq> [] \<and> valid_exponent r1)"

text \<open>
  The whole number a text denotes, for the bounds of a range field. A range field given
  a text that is a number but not a whole numeral is outside the model.
\<close>

definition parse_int :: "string \<Rightarrow> int option" where
  "parse_int s =
     (case s of
        [] \<Rightarrow> None
      | c # t \<Rightarrow> if c = CHR ''-'' then map_option (\<lambda>n. - int n) (parse_nat t)
                 else map_option int (parse_nat s))"

definition sanitize_range :: "int \<Rightarrow> int \<Rightarrow> int \<Rightarrow> string \<Rightarrow> string" where
  "sanitize_range mn mx st s =
     (let twice_v = (case parse_int s of Some n \<Rightarrow> 2 * n
                     | None \<Rightarrow> if mx < mn then 2 * mn else mn + mx);
          twice_c = (if twice_v < 2 * mn then 2 * mn
                     else if mn \<le> mx \<and> 2 * mx < twice_v then 2 * mx else twice_v);
          k = (twice_c - 2 * mn + st) div (2 * st);
          k' = (if mn \<le> mx \<and> mx < mn + k * st then k - 1 else k)
      in show_int (mn + k' * st))"

definition sanitize :: "input_el \<Rightarrow> string \<Rightarrow> string" where
  "sanitize el s =
     (case el_type el of
        TypeText \<Rightarrow> strip_newlines s
      | TypeCheckbox \<Rightarrow> s
      | TypeNumber \<Rightarrow> (if valid_float s then s else [])
      | TypeRange \<Rightarrow>
          sanitize_range (case el_min el of Some m \<Rightarrow> m | None \<Rightarrow> 0)
                         (case el_max el of Some m \<Rightarrow> m | None \<Rightarrow> 100)
                         (case el_step el of Some t \<Rightarrow> if 0 < t then t else 1 | None \<Rightarrow> 1) s)"

text \<open>\<open>el.value = v\<close>; \<open>null\<close> is taken as the empty string.\<close>

definition set_input_value :: "jsval \<Rightarrow> input_el \<Rightarrow> input_el" where
  "set_input_value v el = el\<lparr>el_value := sanitize el (case v of JNull \<Rightarrow> [] | _ \<Rightarrow> ToString v)\<rparr>"

text \<open>\<open>el.type = t\<close>: the value is sanitised again for the new type.\<close>

definition set_input_type :: "input_type \<Rightarrow> input_el \<Rightarrow> input_el" where
  "set_input_type t el = (let el' = el\<lparr>el_type := t\<rparr> in el'\<lparr>el_value := sanitize el' (el_value el)\<rparr>)"

text \<open>
  A drop-down list: the values of its options in document order and the index of the
  selected one. Its \<open>value\<close> is the value of the selected option, or the empty string
  when none is selected. Assigning a value selects the first option with that value, or
  none. An option appended with its \<open>selected\<close> flag set becomes the selected one;
  appended without it, the first option is selected when none was.
\<close>

record select_el =
  sel_options :: "string list"
  sel_selected :: "nat option"
  sel_disabled :: bool
  sel_classes :: "string list"
  sel_initialValue :: string

definition createSelect :: select_el where
  "createSelect = \<lparr>sel_options = [], sel_selected = None, sel_disabled = False,
                    sel_classes = [], sel_initialValue = []\<rparr>"

definition select_value :: "select_el \<Rightarrow> string" where
  "select_value sel =
     (case sel_selected sel of
        None \<Rightarrow> []
      | Some i \<Rightarrow> if i < length (sel_options sel) then sel_options sel ! i else [])"

fun index_of :: "'a \<Rightarrow> 'a list \<Rightarrow> nat option" where
  "index_of x [] = None"
| "index_of x (y # ys) = (if x = y then Some 0 else map_option Suc (index_of x ys))"

definition set_select_value :: "jsval \<Rightarrow> select_el \<Rightarrow> select_el" where
  "set_select_value v sel = sel\<lparr>sel_selected := index_of (ToString v) (sel_options sel)\<rparr>"

definition append_option :: "string \<Rightarrow> bool \<Rightarrow> select_el \<Rightarrow> select_el" where
  "append_option v selected sel =
     sel\<lparr>sel_options := sel_options sel @ [v],
          sel_selected := (if selected then Some (length (sel_options sel))
                           else case sel_selected sel of None \<Rightarrow> Some 0 | Some i \<Rightarrow> Some i)\<rparr>"

section \<open>Setting descriptors (redesign.user.js)\<close>

text \<open>
  One record for the class \<open>Setting\<close> and its subclasses; \<open>kind\<close> is the class of the
  object. \<open>input\<close> is the private field \<open>#input\<close> of \<open>Setting\<close>,
  \<open>select_input\<close> the private field \<open>#input\<close> of \<open>SelectSetting\<close> (a different
  element), \<open>label\<close> the class list of the label once \<open>setLabel\<close> was called.
  The wrapper elements, the data lists and the value bubble of a slider hold no state
  that the accessors below read.
\<close>

datatype kind = BooleanSetting | StringSetting | NumberSetting | SliderSetting | SelectSetting

record setting =
  setting_id :: string
  defaultValue :: jsval
  kind :: kind
  input :: input_el
  select_input :: select_el
  label :: "string list option"

definition PREFIX :: "string \<Rightarrow> string" where
  "PREFIX str = ''better-moodle-'' @ str"

definition getSettingKey :: "string \<Rightarrow> string" where
  "getSettingKey i = PREFIX (''settings.'' @ i)"

definition settingKey :: "setting \<Rightarrow> string" where
  "settingKey st = getSettingKey (setting_id st)"

text \<open>The getter \<open>value\<close> (\<open>SelectSetting\<close> forwards to it).\<close>

definition value_get :: "setting \<Rightarrow> gm \<Rightarrow> jsval \<times> gm" where
  "value_get st g = GM_getValue (settingKey st) (defaultValue st) g"

text \<open>The setter \<open>value\<close> of \<open>Setting\<close>, and its override in \<open>SelectSetting\<close>.\<close>

definition Setting_value_set :: "jsval \<Rightarrow> setting \<Rightarrow> gm \<Rightarrow> setting \<times> gm" where
  "Setting_value_set newValue st g =
     (st\<lparr>input := set_input_value newValue (input st)\<rparr>, GM_setValue (settingKey st) newValue g)"

definition SelectSetting_value_set :: "jsval \<Rightarrow> setting \<Rightarrow> gm \<Rightarrow> setting \<times> gm" where
  "SelectSetting_value_set newValue st g =
     (st\<lparr>select_input := set_select_value newValue (select_input st)\<rparr>,
      GM_setValue (settingKey st) newValue g)"

definition value_set :: "jsval \<Rightarrow> setting \<Rightarrow> gm \<Rightarrow> setting \<times> gm" where
  "value_set newValue st g =
     (case kind st of
        SelectSetting \<Rightarrow> SelectSetting_value_set newValue st g
      | _ \<Rightarrow> Setting_value_set newValue st g)"

text \<open>The getter \<open>inputValue\<close> with its overrides.\<close>

definition inputValue :: "setting \<Rightarrow> jsval" where
  "inputValue st =
     (case kind st of
        BooleanSetting \<Rightarrow> JBool (el_checked (input st))
      | StringSetting \<Rightarrow> JStr (el_value (input st))
      | NumberSetting \<Rightarrow> ToNumber (JStr (el_value (input st)))
      | SliderSetting \<Rightarrow> ToNumber (JStr (el_value (input st)))
      | SelectSetting \<Rightarrow> JStr (select_value (select_input st)))"

text \<open>\<open>saveInput\<close> and \<open>resetInput\<close> with their overrides.\<close>

definition saveInput :: "setting \<Rightarrow> gm \<Rightarrow> setting \<times> gm" where
  "saveInput st g =
     (case kind st of
        BooleanSetting \<Rightarrow> value_set (JBool (el_checked (input st))) st g
      | SelectSetting \<Rightarrow> value_set (JStr (select_value (select_input st))) st g
      | _ \<Rightarrow> value_set (JStr (el_value (input st))) st g)"

definition resetInput :: "setting \<Rightarrow> gm \<Rightarrow> setting \<times> gm" where
  "resetInput st g =
     (let (v, g1) = value_get st g in
      case kind st of
        BooleanSetting \<Rightarrow> (st\<lparr>input := (input st)\<lparr>el_checked := truthy v\<rparr>\<rparr>, g1)
      | SelectSetting \<Rightarrow> (st\<lparr>select_input := set_select_value v (select_input st)\<rparr>, g1)
      | _ \<Rightarrow> (st\<lparr>input := set_input_value v (input st)\<rparr>, g1))"

subsection \<open>Construction\<close>

text \<open>
  The constructor of \<open>Setting\<close> rejects a direct instantiation of the abstract
  class; \<open>kind\<close> has no value for it. It shows the stored value in a fresh text
  field. The subclass constructors then change the type of the field.
\<close>

definition Setting_new :: "kind \<Rightarrow> string \<Rightarrow> jsval \<Rightarrow> gm \<Rightarrow> setting \<times> gm" where
  "Setting_new k i dflt g =
     (let st = \<lparr>setting_id = i, defaultValue = dflt, kind = k, input = createInput,
                select_input = createSelect, label = None\<rparr>;
          (v, g1) = value_get st g
      in (st\<lparr>input := set_input_value v (input st)\<rparr>, g1))"

definition BooleanSetting_new :: "string \<Rightarrow> jsval \<Rightarrow> gm \<Rightarrow> setting \<times> gm" where
  "BooleanSetting_new i dflt g =
     (let (st, g1) = Setting_new BooleanSetting i dflt g;
          el1 = (input st)\<lparr>el_classes := class_add ''custom-control-input'' (el_classes (input st))\<rparr>;
          el2 = set_input_type TypeCheckbox el1;
          (v, g2) = value_get st g1
      in (st\<lparr>input := el2\<lparr>el_checked := truthy v\<rparr>\<rparr>, g2))"

definition StringSetting_new :: "string \<Rightarrow> jsval \<Rightarrow> gm \<Rightarrow> setting \<times> gm" where
  "StringSetting_new i dflt g =
     (let (st, g1) = Setting_new StringSetting i dflt g;
          el1 = set_input_type TypeText (input st)
      in (st\<lparr>input := el1\<lparr>el_classes := class_add ''form-control'' (el_classes el1)\<rparr>\<rparr>, g1))"

text \<open>\<open>step\<close> defaults to 1 when it is left out (\<open>None\<close>).\<close>

definition NumberSetting_init :: "kind \<Rightarrow> string \<Rightarrow> jsval \<Rightarrow> int option \<Rightarrow> int option \<Rightarrow> int option \<Rightarrow> gm \<Rightarrow> setting \<times> gm" where
  "NumberSetting_init k i dflt mn mx step g =
     (let (st, g1) = Setting_new k i dflt g;
          el1 = set_input_type TypeNumber (input st);
          el2 = el1\<lparr>el_classes := class_add ''form-control'' (el_classes el1)\<rparr>;
          el3 = (case mn of Some m \<Rightarrow> el2\<lparr>el_min := Some m\<rparr> | None \<Rightarrow> el2);
          el4 = (case mx of Some m \<Rightarrow> el3\<lparr>el_max := Some m\<rparr> | None \<Rightarrow> el3)
      in (st\<lparr>input := el4\<lparr>el_step := Some (case step of Some t \<Rightarrow> t | None \<Rightarrow> 1)\<rparr>\<rparr>, g1))"

definition NumberSetting_new :: "string \<Rightarrow> jsval \<Rightarrow> int option \<Rightarrow> int option \<Rightarrow> int option \<Rightarrow> gm \<Rightarrow> setting \<times> gm" where
  "NumberSetting_new i dflt mn mx step g = NumberSetting_init NumberSetting i dflt mn mx step g"

section \<open>Slider ticks and labels\<close>

text \<open>
  Both the class \<open>SliderSetting\<close> (redesign.user.js) and the component \<open>Slider\<close>
  (src/_lib/Components.tsx) fill two data lists with the loop
  \<open>for (let currentStep = min; currentStep <= max; currentStep += inc)\<close>.
  The numbers of these loops are modelled as exact rationals: the rounding of doubles
  is outside the model. Where every sum of the loop is a whole number or a multiple of
  a power of two, the doubles of the code are these rationals. Elsewhere the rounding
  can take the last step past \<open>max\<close> and the code then yields one label less than
  the model (six labels where the model has seven for the slider from 0 to 100 with 7
  labels); on the slider from 1 to 10 the code yields as many labels as the model for
  every whole number of labels. A loop whose increment is not positive never ends
  when it is entered, so the loop yields an option.
\<close>

partial_function (option) stepLoop :: "rat \<Rightarrow> rat \<Rightarrow> rat \<Rightarrow> rat list \<Rightarrow> rat list option" where
  "stepLoop currentStep mx inc acc =
     (if currentStep \<le> mx then stepLoop (currentStep + inc) mx inc (acc @ [currentStep])
      else Some acc)"

declare stepLoop.simps [code]

text \<open>
  A quotient by zero is an infinity or NaN in JavaScript. With such an increment the
  loop body runs once when the loop is entered: the next \<open>currentStep\<close> is then
  \<open>Infinity\<close> or NaN and fails the test.
\<close>

definition stepLoop_quot :: "rat \<Rightarrow> rat \<Rightarrow> rat \<Rightarrow> rat \<Rightarrow> rat list option" where
  "stepLoop_quot mn mx a b =
     (if b = 0 then Some (if mn \<le> mx then [mn] else []) else stepLoop mn mx (a / b) [])"

text \<open>
  The tick marks. \<open>SliderSetting\<close> builds them only \<open>if (step)\<close>; \<open>Slider\<close> always.
  With \<open>steps = (max - min + 1) / step\<close> the increment is \<open>(max - min + 1) / steps\<close>;
  where a divisor is zero the increment is zero or the loop is not entered, as with
  the convention \<open>x / 0 = 0\<close> of the rationals here.
\<close>

definition SliderSetting_datalist :: "rat \<Rightarrow> rat \<Rightarrow> rat \<Rightarrow> rat list option" where
  "SliderSetting_datalist mn mx step =
     (if step \<noteq> 0
      then (let steps = (mx - mn + 1) / step in stepLoop mn mx ((mx - mn + 1) / steps) [])
      else Some [])"

definition Slider_datalist :: "rat \<Rightarrow> rat \<Rightarrow> rat \<Rightarrow> rat list option" where
  "Slider_datalist mn mx step =
     (let steps = (mx - mn + 1) / step in stepLoop mn mx ((mx - mn + 1) / steps) [])"

text \<open>
  The number of labels: \<open>Math.max(2, Math.min(10, labels))\<close>, where \<open>labels\<close>
  defaults to \<open>(max - min + 1) / step\<close>. For \<open>step = 0\<close> that default is an
  infinity, which the clamp takes to 10 or to 2 (or it is NaN, when
  \<open>max - min + 1 = 0\<close>: then \<open>max < min\<close> and the label loop is not entered
  whatever the count).
\<close>

definition labelCount_of :: "rat \<Rightarrow> rat \<Rightarrow> rat \<Rightarrow> rat option \<Rightarrow> rat" where
  "labelCount_of mn mx step labels =
     (case labels of
        Some l \<Rightarrow> max 2 (min 10 l)
      | None \<Rightarrow> if step = 0 then (if 0 < mx - mn + 1 then 10 else 2)
                else max 2 (min 10 ((mx - mn + 1) / step)))"

definition SliderSetting_labelDatalist :: "rat \<Rightarrow> rat \<Rightarrow> rat \<Rightarrow> rat option \<Rightarrow> rat list option" where
  "SliderSetting_labelDatalist mn mx step labels =
     (let labelCount = labelCount_of mn mx step labels
      in stepLoop_quot mn mx (mx - mn) (labelCount - 1))"

text \<open>
  In \<open>Slider\<close> the labels may also be given as a list of label keys; then there are as
  many labels as keys, without a clamp.
\<close>

datatype labels_arg = LabelCount rat | LabelKeys "string list"

definition Slider_labelCount :: "rat \<Rightarrow> rat \<Rightarrow> rat \<Rightarrow> labels_arg option \<Rightarrow> rat" where
  "Slider_labelCount mn mx step labels =
     (case labels of
        Some (LabelKeys ks) \<Rightarrow> of_nat (length ks)
      | Some (LabelCount l) \<Rightarrow> labelCount_of mn mx step (Some l)
      | None \<Rightarrow> labelCount_of mn mx step None)"

definition Slider_labelDatalist :: "rat \<Rightarrow> rat \<Rightarrow> rat \<Rightarrow> labels_arg option \<Rightarrow> rat list option" where
  "Slider_labelDatalist mn mx step labels =
     (let labelCount = Slider_labelCount mn mx step labels
      in stepLoop_quot mn mx (mx - mn) (labelCount - 1))"

text \<open>
  The constructor of \<open>SliderSetting\<close>: a number field turned into a range field. It
  returns only when both loops end.
\<close>

definition SliderSetting_new :: "string \<Rightarrow> jsval \<Rightarrow> int \<Rightarrow> int \<Rightarrow> int option \<Rightarrow> rat option \<Rightarrow> gm \<Rightarrow> (setting \<times> gm) option" where
  "SliderSetting_new i dflt mn mx step labels g =
     (let (st, g1) = NumberSetting_init SliderSetting i dflt (Some mn) (Some mx) step g;
          stp = (case step of Some t \<Rightarrow> t | None \<Rightarrow> 1);
          el1 = set_input_type TypeRange (input st);
          el2 = el1\<lparr>el_classes := class_replace ''form-control'' ''form-control-range''
                                    (class_add ''custom-range'' (el_classes el1))\<rparr>
      in case SliderSetting_datalist (of_int mn) (of_int mx) (of_int stp) of
           None \<Rightarrow> None
         | Some ticks \<Rightarrow>
             (case SliderSetting_labelDatalist (of_int mn) (of_int mx) (of_int stp) labels of
                None \<Rightarrow> None
              | Some labs \<Rightarrow> Some (st\<lparr>input := el2\<rparr>, g1)))"

subsection \<open>Select settings\<close>

definition SelectSetting_new :: "string \<Rightarrow> jsval \<Rightarrow> gm \<Rightarrow> setting \<times> gm" where
  "SelectSetting_new i dflt g =
     (let (st, g1) = Setting_new SelectSetting i dflt g;
          (v, g2) = value_get st g1;
          sel = (select_input st)\<lparr>
                  sel_classes := class_add ''col-md-auto'' (class_add ''col-12''
                                   (class_add ''custom-select'' (sel_classes (select_input st)))),
                  sel_initialValue := ToString v\<rparr>
      in (st\<lparr>select_input := sel\<rparr>, g2))"

text \<open>
  The options arrive when the promise given to the constructor resolves; each is
  appended, selected when its key is the stored value.
\<close>

definition SelectSetting_addOption :: "string \<Rightarrow> setting \<times> gm \<Rightarrow> setting \<times> gm" where
  "SelectSetting_addOption key sg =
     (let (st, g) = sg;
          (v, g1) = value_get st g
      in (st\<lparr>select_input := append_option key (JStr key = v) (select_input st)\<rparr>, g1))"

definition SelectSetting_addOptions :: "string list \<Rightarrow> setting \<Rightarrow> gm \<Rightarrow> setting \<times> gm" where
  "SelectSetting_addOptions keys st g = fold SelectSetting_addOption keys (st, g)"

subsection \<open>Edits by the user\<close>

text \<open>
  An interaction of the user with a control changes the state of that control: a switch
  is set on or off, text is typed into a field or a slider is moved (the field then
  holds the text), an option of a list is chosen. The listeners registered with
  \<open>onInput\<close> are callbacks of the features and are not part of the descriptor.
\<close>

datatype edit = Toggle bool | Typed string | Chosen nat

definition userEdit :: "edit \<Rightarrow> setting \<Rightarrow> setting" where
  "userEdit e st =
     (case e of
        Toggle b \<Rightarrow> st\<lparr>input := (input st)\<lparr>el_checked := b\<rparr>\<rparr>
      | Typed t \<Rightarrow> st\<lparr>input := (input st)\<lparr>el_value := t\<rparr>\<rparr>
      | Chosen i \<Rightarrow> st\<lparr>select_input := (select_input st)\<lparr>sel_selected := Some i\<rparr>\<rparr>)"

section \<open>Registry and disabled states\<close>

text \<open>
  \<open>SETTINGS\<close> is a list of headings and descriptors. A descriptor carries its
  predicate \<open>#disabledFn\<close>, which is given the index \<open>settingsById\<close> of the
  descriptor objects as they are at that moment, and may throw.
\<close>

type_synonym disabledFn = "(string \<Rightarrow> setting option) \<Rightarrow> error + bool"

datatype entry = Heading string | Descriptor setting disabledFn

definition never_disabled :: disabledFn where
  "never_disabled settings = Inr False"

text \<open>
  The predicates of the registry that depend on a switch, such as
  \<open>settings => !settings['courses.grades'].inputValue\<close>. Reading a property of a
  descriptor that is not registered throws.
\<close>

definition not_inputValue_of :: "string \<Rightarrow> disabledFn" where
  "not_inputValue_of i settings =
     (case settings i of None \<Rightarrow> Inl TypeError | Some a \<Rightarrow> Inr (\<not> truthy (inputValue a)))"

definition setDisabledFn :: "disabledFn \<Rightarrow> entry \<Rightarrow> entry" where
  "setDisabledFn f e = (case e of Heading h \<Rightarrow> Heading h | Descriptor st _ \<Rightarrow> Descriptor st f)"

text \<open>\<open>Object.fromEntries\<close>: of two descriptors with one id the later one is kept.\<close>

definition settingsById :: "entry list \<Rightarrow> string \<Rightarrow> setting option" where
  "settingsById SETTINGS =
     map_of (rev (List.map_filter
       (\<lambda>e. case e of Heading h \<Rightarrow> None | Descriptor st f \<Rightarrow> Some (setting_id st, st)) SETTINGS))"

definition Setting_toggleDisabled :: "disabledFn \<Rightarrow> (string \<Rightarrow> setting option) \<Rightarrow> setting \<Rightarrow> error + (bool \<times> setting)" where
  "Setting_toggleDisabled f settings st =
     (case f settings of
        Inl e \<Rightarrow> Inl e
      | Inr disabled \<Rightarrow>
          Inr (disabled,
               st\<lparr>input := (input st)\<lparr>
                     el_disabled := disabled,
                     el_classes := (if disabled then class_add ''disabled'' (el_classes (input st))
                                    else class_remove ''disabled'' (el_classes (input st)))\<rparr>,
                  label := map_option (if disabled then class_add ''text-muted''
                                       else class_remove ''text-muted'') (label st)\<rparr>))"

definition SelectSetting_toggleDisabled :: "disabledFn \<Rightarrow> (string \<Rightarrow> setting option) \<Rightarrow> setting \<Rightarrow> error + (bool \<times> setting)" where
  "SelectSetting_toggleDisabled f settings st =
     (case Setting_toggleDisabled f settings st of
        Inl e \<Rightarrow> Inl e
      | Inr (disabled, st1) \<Rightarrow>
          Inr (disabled,
               st1\<lparr>select_input := (select_input st1)\<lparr>
                      sel_disabled := disabled,
                      sel_classes := (if disabled then class_add ''disabled'' (sel_classes (select_input st1))
                                      else class_remove ''disabled'' (sel_classes (select_input st1)))\<rparr>\<rparr>))"

definition toggleDisabled :: "disabledFn \<Rightarrow> (string \<Rightarrow> setting option) \<Rightarrow> setting \<Rightarrow> error + (bool \<times> setting)" where
  "toggleDisabled f settings st =
     (case kind st of
        SelectSetting \<Rightarrow> SelectSetting_toggleDisabled f settings st
      | _ \<Rightarrow> Setting_toggleDisabled f settings st)"

text \<open>
  \<open>updateDisabledStates\<close> visits the entries in order. Each descriptor is toggled
  against the index of the registry as the earlier visits left it.
\<close>

definition toggle_at :: "nat \<Rightarrow> entry list \<Rightarrow> error + entry list" where
  "toggle_at i SETTINGS =
     (case SETTINGS ! i of
        Heading h \<Rightarrow> Inr SETTINGS
      | Descriptor st f \<Rightarrow>
          (case toggleDisabled f (settingsById SETTINGS) st of
             Inl e \<Rightarrow> Inl e
           | Inr (disabled, st') \<Rightarrow> Inr (SETTINGS[i := Descriptor st' f])))"

definition updateDisabledStates :: "entry list \<Rightarrow> error + entry list" where
  "updateDisabledStates SETTINGS =
     fold (\<lambda>i r. case r of Inl e \<Rightarrow> Inl e | Inr cur \<Rightarrow> toggle_at i cur)
          [0..<length SETTINGS] (Inr SETTINGS)"

subsection \<open>Notions for stating that the order of registration does not matter\<close>

text \<open>
  A descriptor without its disabled state: the flags and classes that
  \<open>toggleDisabled\<close> sets are reset. A predicate reads pending values only when it
  cannot tell an index of descriptors from the same index without disabled states.
\<close>

definition without_flags :: "setting \<Rightarrow> setting" where
  "without_flags st =
     st\<lparr>input := (input st)\<lparr>el_disabled := False, el_classes := []\<rparr>,
        select_input := (select_input st)\<lparr>sel_disabled := False, sel_classes := []\<rparr>,
        label := None\<rparr>"

definition pending_only :: "disabledFn \<Rightarrow> bool" where
  "pending_only f = (\<forall>m. f m = f (\<lambda>i. map_option without_flags (m i)))"

fun pending_only_entry :: "entry \<Rightarrow> bool" where
  "pending_only_entry (Heading h) = True"
| "pending_only_entry (Descriptor st f) = pending_only f"

fun strip_entry :: "entry \<Rightarrow> entry" where
  "strip_entry (Heading h) = Heading h"
| "strip_entry (Descriptor st f) = Descriptor (without_flags st) f"

text \<open>The predicate of an entry does not throw on an index.\<close>

fun succeeds_on :: "(string \<Rightarrow> setting option) \<Rightarrow> entry \<Rightarrow> bool" where
  "succeeds_on m (Heading h) = True"
| "succeeds_on m (Descriptor st f) = (case f m of Inr d \<Rightarrow> True | Inl e \<Rightarrow> False)"

text \<open>An entry after its descriptor was toggled against a fixed index.\<close>

fun toggled_entry :: "(string \<Rightarrow> setting option) \<Rightarrow> entry \<Rightarrow> entry" where
  "toggled_entry m (Heading h) = Heading h"
| "toggled_entry m (Descriptor st f) =
     (case toggleDisabled f m st of Inr (d, st') \<Rightarrow> Descriptor st' f | Inl e \<Rightarrow> Descriptor st f)"

text \<open>The ids of a registry with their descriptors, in order.\<close>

definition id_pairs :: "entry list \<Rightarrow> (string \<times> setting) list" where
  "id_pairs SETTINGS =
     List.map_filter
       (\<lambda>e. case e of Heading h \<Rightarrow> None | Descriptor st f \<Rightarrow> Some (setting_id st, st)) SETTINGS"

section \<open>Import of a settings file\<close>

text \<open>
  \<open>Object.entries\<close>: the own properties of an object, the elements of an array and
  the characters of a string under their indices; \<open>null\<close> and \<open>undefined\<close> throw.
\<close>

fun Object_entries :: "jsval \<Rightarrow> error + (string \<times> jsval) list" where
  "Object_entries JUndefined = Inl TypeError"
| "Object_entries JNull = Inl TypeError"
| "Object_entries (JObj kvs) = Inr kvs"
| "Object_entries (JArr xs) = Inr (zip (map show_nat [0..<length xs]) xs)"
| "Object_entries (JStr s) = Inr (zip (map show_nat [0..<length s]) (map (\<lambda>c. JStr [c]) s))"
| "Object_entries v = Inr []"

text \<open>
  The handler of the file reader's \<open>load\<close> event. \<open>JSON.parse\<close> is the parser of the
  language, a parameter here: \<open>None\<close> stands for the \<open>SyntaxError\<close> it throws on text
  that is not valid JSON. The handler ends by reloading the page.
\<close>

definition importSettings :: "(string \<Rightarrow> jsval option) \<Rightarrow> string \<Rightarrow> gm \<Rightarrow> error option \<times> gm" where
  "importSettings JSON_parse text g =
     (case JSON_parse text of
        None \<Rightarrow> (Some SyntaxError, g)
      | Some config \<Rightarrow>
          (case Object_entries config of
             Inl e \<Rightarrow> (Some e, g)
           | Inr entries \<Rightarrow> (None, fold (\<lambda>(key, v). GM_setValue key v) entries g)))"

section \<open>Properties of the storage migration\<close>

lemmas gm_defs = GM_getValue_def GM_setValue_def GM_deleteValue_def getAndDelete_def

lemmas key_defs = STORAGE_VERSION_KEY_def CURRENT_STORAGE_VERSION_def
  STORAGE_V2_SEEN_SETTINGS_KEY_def LEGACY_SEEN_SETTINGS_KEY_def LEGACY_LANGUAGE_KEY_def

lemma legacy_keys_distinct:
  "LEGACY_SEEN_SETTINGS_KEY \<noteq> LEGACY_LANGUAGE_KEY"
  "LEGACY_LANGUAGE_KEY \<noteq> STORAGE_V2_SEEN_SETTINGS_KEY"
  "LEGACY_SEEN_SETTINGS_KEY \<noteq> STORAGE_V2_SEEN_SETTINGS_KEY"
  by (simp_all add: key_defs)

lemma fst_GM_getValue:
  "fst (GM_getValue key d s) = (case map_of (kv s) key of Some v \<Rightarrow> v | None \<Rightarrow> d)"
  by (simp add: GM_getValue_def)

lemma getAndDelete_eq:
  "getAndDelete key d s =
     ((case map_of (kv s) key of Some v \<Rightarrow> v | None \<Rightarrow> d),
      s\<lparr>kv := AList.delete key (kv s), trace := trace s @ [OpGet key, OpDelete key]\<rparr>)"
  by (simp add: gm_defs)

lemma length_truthy_cases:
  "length_truthy v \<noteq> Inl TypeError \<Longrightarrow> \<exists>b. length_truthy v = Inr b"
  by (cases "length_truthy v") (auto intro: error.exhaust elim: length_truthy.elims)

text \<open>The step to version 2, written out, when the old list of seen settings can be tested.\<close>

lemma migrate_to_v2_eq:
  assumes "length_truthy (case map_of (kv s) LEGACY_SEEN_SETTINGS_KEY of Some v \<Rightarrow> v | None \<Rightarrow> JArr []) = Inr b"
  shows "migrate_to_v2 gsk s =
     (let seen = (case map_of (kv s) LEGACY_SEEN_SETTINGS_KEY of Some v \<Rightarrow> v | None \<Rightarrow> JArr []);
          lang = (case map_of (kv s) LEGACY_LANGUAGE_KEY of Some v \<Rightarrow> v | None \<Rightarrow> JUndefined);
          k1 = AList.delete LEGACY_SEEN_SETTINGS_KEY (kv s);
          k2 = (if b then AList.update STORAGE_V2_SEEN_SETTINGS_KEY seen k1 else k1);
          k3 = AList.delete LEGACY_LANGUAGE_KEY k2;
          k4 = (if truthy lang then AList.update (STORAGE_V2_LANGUAGE_KEY gsk) lang k3 else k3)
      in (None, \<lparr>kv = k4,
                 trace = trace s @ [OpGet LEGACY_SEEN_SETTINGS_KEY, OpDelete LEGACY_SEEN_SETTINGS_KEY]
                   @ (if b then [OpSet STORAGE_V2_SEEN_SETTINGS_KEY seen] else [])
                   @ [OpGet LEGACY_LANGUAGE_KEY, OpDelete LEGACY_LANGUAGE_KEY]
                   @ (if truthy lang then [OpSet (STORAGE_V2_LANGUAGE_KEY gsk) lang] else [])\<rparr>))"
proof (cases b)
  case True
  with assms show ?thesis
    using legacy_keys_distinct
    by (simp add: migrate_to_v2_def getAndDelete_eq GM_setValue_def Let_def update_conv' delete_conv')
next
  case False
  with assms show ?thesis
    using legacy_keys_distinct
    by (simp add: migrate_to_v2_def getAndDelete_eq GM_setValue_def Let_def update_conv' delete_conv')
qed

text \<open>
  Claim C2. On a fresh installation (the store is entirely empty) the runner looks up
  no legacy key and creates no key: it reads the version once and returns at the guard
  for a fresh installation. The store is still empty when it finishes, so the version
  is not stored and reads as its default 0.
\<close>

theorem fresh_install_run:
  assumes "isNewInstallation s"
  shows "runMigration gsk s = (None, s\<lparr>trace := trace s @ [OpGet STORAGE_VERSION_KEY]\<rparr>)
       \<and> kv (snd (runMigration gsk s)) = []
       \<and> fst (GM_getValue STORAGE_VERSION_KEY (JNum 0) (snd (runMigration gsk s))) = JNum 0"
proof -
  from assms have e: "kv s = []"
    by (simp add: isNewInstallation_def GM_listValues_def)
  have r: "runMigration gsk s = (None, s\<lparr>trace := trace s @ [OpGet STORAGE_VERSION_KEY]\<rparr>)"
    using assms by (simp add: runMigration_def migrateStorage_def GM_getValue_def)
  show ?thesis
    unfolding r using e by (simp add: GM_getValue_def)
qed

theorem fresh_install_run_witness:
  "runMigration ((@) ''settings.'') empty_store
     = (None, \<lparr>kv = [], trace = [OpGet ''storageVersion'']\<rparr>)
   \<and> kv (snd (runMigration ((@) ''settings.'') empty_store)) = []
   \<and> fst (GM_getValue ''storageVersion'' (JNum 0) (snd (runMigration ((@) ''settings.'') empty_store)))
       = JNum 0"
proof -
  have h: "isNewInstallation empty_store"
    by (simp add: isNewInstallation_def GM_listValues_def empty_store_def)
  from fresh_install_run [OF h, of "(@) ''settings.''"] show ?thesis
    by (simp add: empty_store_def STORAGE_VERSION_KEY_def GM_getValue_def)
qed

text \<open>
  The version is therefore not the current one after the run on the empty store.
\<close>

theorem fresh_install_version_counterexample:
  "fst (GM_getValue STORAGE_VERSION_KEY (JNum 0) (snd (runMigration ((@) ''settings.'') empty_store)))
   \<noteq> JNum CURRENT_STORAGE_VERSION"
  by (simp add: runMigration_def migrateStorage_def isNewInstallation_def GM_listValues_def
        empty_store_def GM_getValue_def CURRENT_STORAGE_VERSION_def)

text \<open>
  At the next start with a store that is no longer empty and carries no version, the
  runner takes the installation for one from before the versions and runs the step to
  version 2; its two look-ups of the legacy keys find nothing.
\<close>

lemma start_after_fresh_install:
  "looked_up (trace (snd (runMigration gsk
      (GM_setValue ''settings.general.fullwidth'' (JBool False) empty_store))))
   = [STORAGE_VERSION_KEY, LEGACY_SEEN_SETTINGS_KEY, LEGACY_LANGUAGE_KEY]"
  by (simp add: runMigration_def migrateStorage_def migrate_to_v2_def isNewInstallation_def GM_listValues_def
        empty_store_def gm_defs key_defs js_lt_num_def Let_def)

text \<open>
  Claim C3. From a store holding the list of seen settings \<open>["a","b"]\<close> and the
  language \<open>"de"\<close> under their legacy keys and no version, the runner leaves the list
  under \<open>seenSettings\<close>, the language under the new language key and the version 2, and
  the legacy keys are gone. The new language key comes from \<open>getSettingKey\<close> of the
  helpers module; it is assumed to differ from the four other keys involved.
\<close>

theorem migration_of_legacy_store:
  assumes "STORAGE_V2_LANGUAGE_KEY gsk \<notin> set [LEGACY_SEEN_SETTINGS_KEY, LEGACY_LANGUAGE_KEY,
             STORAGE_V2_SEEN_SETTINGS_KEY, STORAGE_VERSION_KEY]"
  shows "runMigration gsk
           \<lparr>kv = [(''better-moodle-seen-settings'', JArr [JStr ''a'', JStr ''b'']),
                  (''better-moodle-settings.general.language'', JStr ''de'')],
            trace = []\<rparr>
     = (None,
        \<lparr>kv = [(''seenSettings'', JArr [JStr ''a'', JStr ''b'']),
               (STORAGE_V2_LANGUAGE_KEY gsk, JStr ''de''),
               (''storageVersion'', JNum 2)],
         trace = [OpGet ''storageVersion'',
                  OpGet ''better-moodle-seen-settings'', OpDelete ''better-moodle-seen-settings'',
                  OpSet ''seenSettings'' (JArr [JStr ''a'', JStr ''b'']),
                  OpGet ''better-moodle-settings.general.language'',
                  OpDelete ''better-moodle-settings.general.language'',
                  OpSet (STORAGE_V2_LANGUAGE_KEY gsk) (JStr ''de''),
                  OpSet ''storageVersion'' (JNum 2)]\<rparr>)"
  using assms
  by (auto simp add: runMigration_def migrateStorage_def migrate_to_v2_def isNewInstallation_def GM_listValues_def
        gm_defs key_defs js_lt_num_def Let_def)

theorem migration_of_legacy_store_witness:
  "runMigration (\<lambda>i. ''settings.'' @ i)
           \<lparr>kv = [(''better-moodle-seen-settings'', JArr [JStr ''a'', JStr ''b'']),
                  (''better-moodle-settings.general.language'', JStr ''de'')],
            trace = []\<rparr>
     = (None,
        \<lparr>kv = [(''seenSettings'', JArr [JStr ''a'', JStr ''b'']),
               (''settings.general.language'', JStr ''de''),
               (''storageVersion'', JNum 2)],
         trace = [OpGet ''storageVersion'',
                  OpGet ''better-moodle-seen-settings'', OpDelete ''better-moodle-seen-settings'',
                  OpSet ''seenSettings'' (JArr [JStr ''a'', JStr ''b'']),
                  OpGet ''better-moodle-settings.general.language'',
                  OpDelete ''better-moodle-settings.general.language'',
                  OpSet ''settings.general.language'' (JStr ''de''),
                  OpSet ''storageVersion'' (JNum 2)]\<rparr>)"
  using migration_of_legacy_store [of "\<lambda>i. ''settings.'' @ i"]
  by (simp add: key_defs STORAGE_V2_LANGUAGE_KEY_def)

text \<open>
  With the \<open>getSettingKey\<close> of the userscript (redesign.user.js) the new language key
  is the legacy key itself: the language is then written back under the name it was
  deleted from.
\<close>

lemma language_key_of_userscript:
  "STORAGE_V2_LANGUAGE_KEY getSettingKey = LEGACY_LANGUAGE_KEY"
  by (simp add: STORAGE_V2_LANGUAGE_KEY_def getSettingKey_def PREFIX_def LEGACY_LANGUAGE_KEY_def)

text \<open>
  Claim C4. When the store holds the current version, a run of the runner reads the
  version and does nothing else: the contents of the store are the same after it, and
  no write or delete was made.
\<close>

theorem migration_idempotent:
  assumes "map_of (kv s) STORAGE_VERSION_KEY = Some (JNum CURRENT_STORAGE_VERSION)"
  shows "migrateStorage newInstallation gsk s = (None, s\<lparr>trace := trace s @ [OpGet STORAGE_VERSION_KEY]\<rparr>)
       \<and> kv (snd (migrateStorage newInstallation gsk s)) = kv s
       \<and> mutations (trace (snd (migrateStorage newInstallation gsk s))) = mutations (trace s)"
  using assms by (simp add: migrateStorage_def gm_defs mutations_def)

theorem migration_idempotent_witness:
  "kv (snd (runMigration (\<lambda>i. ''settings.'' @ i)
        \<lparr>kv = [(''seenSettings'', JArr [JStr ''a'', JStr ''b'']),
               (''settings.general.language'', JStr ''de''),
               (''storageVersion'', JNum 2)], trace = []\<rparr>))
   = [(''seenSettings'', JArr [JStr ''a'', JStr ''b'']),
      (''settings.general.language'', JStr ''de''),
      (''storageVersion'', JNum 2)]
   \<and> mutations (trace (snd (runMigration (\<lambda>i. ''settings.'' @ i)
        \<lparr>kv = [(''seenSettings'', JArr [JStr ''a'', JStr ''b'']),
               (''settings.general.language'', JStr ''de''),
               (''storageVersion'', JNum 2)], trace = []\<rparr>))) = []"
  using migration_idempotent [of "\<lparr>kv = [(''seenSettings'', JArr [JStr ''a'', JStr ''b'']),
               (''settings.general.language'', JStr ''de''),
               (''storageVersion'', JNum 2)], trace = []\<rparr>" False "\<lambda>i. ''settings.'' @ i"]
  by (simp add: runMigration_def isNewInstallation_def GM_listValues_def key_defs mutations_def)

text \<open>A run that was not cut short by the guard for a fresh installation ends at the current version.\<close>

lemma completed_run_reaches_current:
  assumes "migrateStorage False gsk s = (None, s')"
  shows "map_of (kv s') STORAGE_VERSION_KEY = Some (JNum CURRENT_STORAGE_VERSION)"
  using assms
  by (auto simp add: migrateStorage_def gm_defs Let_def update_conv' CURRENT_STORAGE_VERSION_def
        split: if_splits option.splits prod.splits)

text \<open>
  Claim C10. In the step to version 2 each legacy key is deleted right after it is
  read, and a replacement is written only for a value that counts: no key is written for
  an empty list of seen settings, nor for a language that is absent or the empty string,
  and afterwards neither legacy key is in the store. This is for a store whose old list
  of seen settings can be tested for its length, and for a new language key that is
  neither of the legacy keys.
\<close>

theorem migrate_to_v2_legacy_keys:
  fixes s :: gm and gsk :: "string \<Rightarrow> string"
  assumes typed: "length_truthy (fst (GM_getValue LEGACY_SEEN_SETTINGS_KEY (JArr []) s)) \<noteq> Inl TypeError"
      and fresh: "STORAGE_V2_LANGUAGE_KEY gsk \<notin> {LEGACY_SEEN_SETTINGS_KEY, LEGACY_LANGUAGE_KEY}"
  shows "(let oldSeenSettings = fst (GM_getValue LEGACY_SEEN_SETTINGS_KEY (JArr []) s);
              oldLanguage = fst (GM_getValue LEGACY_LANGUAGE_KEY JUndefined s);
              seenWrite = (if length_truthy oldSeenSettings = Inr True
                           then [OpSet STORAGE_V2_SEEN_SETTINGS_KEY oldSeenSettings] else []);
              languageWrite = (if truthy oldLanguage
                           then [OpSet (STORAGE_V2_LANGUAGE_KEY gsk) oldLanguage] else []);
              r = migrate_to_v2 gsk s
          in fst r = None
           \<and> trace (snd r) = trace s @ [OpGet LEGACY_SEEN_SETTINGS_KEY, OpDelete LEGACY_SEEN_SETTINGS_KEY] @ seenWrite
                               @ [OpGet LEGACY_LANGUAGE_KEY, OpDelete LEGACY_LANGUAGE_KEY] @ languageWrite
           \<and> map_of (kv (snd r)) LEGACY_SEEN_SETTINGS_KEY = None
           \<and> map_of (kv (snd r)) LEGACY_LANGUAGE_KEY = None
           \<and> (oldSeenSettings = JArr [] \<longrightarrow> seenWrite = [])
           \<and> (oldLanguage = JUndefined \<or> oldLanguage = JStr [] \<longrightarrow> languageWrite = []))"
proof -
  obtain b where b: "length_truthy (case map_of (kv s) LEGACY_SEEN_SETTINGS_KEY of Some v \<Rightarrow> v | None \<Rightarrow> JArr []) = Inr b"
    using typed length_truthy_cases unfolding fst_GM_getValue by blast
  from fresh have k: "STORAGE_V2_LANGUAGE_KEY gsk \<noteq> LEGACY_SEEN_SETTINGS_KEY"
       "STORAGE_V2_LANGUAGE_KEY gsk \<noteq> LEGACY_LANGUAGE_KEY" by auto
  show ?thesis
    unfolding fst_GM_getValue migrate_to_v2_eq [OF b] Let_def
    using b k legacy_keys_distinct
    by (cases b) (simp_all add: update_conv' delete_conv')
qed

theorem migrate_to_v2_legacy_keys_witness:
  "migrate_to_v2 (\<lambda>i. ''settings.'' @ i)
      \<lparr>kv = [(''better-moodle-seen-settings'', JArr []),
             (''better-moodle-settings.general.language'', JStr [])], trace = []\<rparr>
   = (None, \<lparr>kv = [],
             trace = [OpGet ''better-moodle-seen-settings'', OpDelete ''better-moodle-seen-settings'',
                      OpGet ''better-moodle-settings.general.language'',
                      OpDelete ''better-moodle-settings.general.language'']\<rparr>)"
  using migrate_to_v2_legacy_keys [of "\<lparr>kv = [(''better-moodle-seen-settings'', JArr []),
             (''better-moodle-settings.general.language'', JStr [])], trace = []\<rparr>" "\<lambda>i. ''settings.'' @ i"]
  by (simp add: migrate_to_v2_def gm_defs key_defs STORAGE_V2_LANGUAGE_KEY_def Let_def)

section \<open>Properties of the numerals\<close>

lemma digit_val_digit_char: "d < 10 \<Longrightarrow> digit_val (digit_char d) = d"
proof -
  assume "d < 10"
  then have "d \<in> {0, 1, 2, 3, 4, 5, 6, 7, 8, 9}" by auto
  then show ?thesis
    unfolding digit_val_def digit_char_def by (elim insertE emptyE) simp_all
qed

lemma is_digit_digit_char: "is_digit (digit_char d)"
proof -
  have "\<And>m::nat. m < 10 \<Longrightarrow> m \<in> {0, 1, 2, 3, 4, 5, 6, 7, 8, 9}" by auto
  then have "d mod 10 \<in> {0, 1, 2, 3, 4, 5, 6, 7, 8, 9}" by simp
  then show ?thesis
    unfolding is_digit_def digit_char_def by (elim insertE emptyE) simp_all
qed

lemma not_space_digit: "is_digit c \<Longrightarrow> \<not> is_space c"
  by (auto simp add: is_digit_def is_space_def)

lemma not_sign_digit: "is_digit c \<Longrightarrow> c \<noteq> CHR ''-'' \<and> c \<noteq> CHR ''+''"
  by (auto simp add: is_digit_def)

lemma show_nat_digits: "show_nat n \<noteq> [] \<and> list_all is_digit (show_nat n)"
  by (induction n rule: show_nat.induct) (subst show_nat.simps, simp add: is_digit_digit_char)+

lemma foldl_show_nat: "foldl (\<lambda>acc c. 10 * acc + digit_val c) 0 (show_nat n) = n"
proof (induction n rule: show_nat.induct)
  case (1 n)
  show ?case
  proof (cases "n < 10")
    case True
    then show ?thesis by (subst show_nat.simps) (simp add: digit_val_digit_char)
  next
    case False
    with 1 show ?thesis by (subst show_nat.simps) (simp add: digit_val_digit_char)
  qed
qed

lemma parse_nat_show_nat: "parse_nat (show_nat n) = Some n"
  by (simp add: parse_nat_def show_nat_digits foldl_show_nat)

lemma trim_digits:
  assumes "list_all is_digit s"
  shows "trim s = s"
proof (cases s)
  case Nil
  then show ?thesis by (simp add: trim_def)
next
  case (Cons c t)
  with assms have h: "\<not> is_space (hd s)" and l: "\<not> is_space (last s)"
    by (auto simp add: not_space_digit list_all_iff)
  from Cons h have 1: "dropWhile is_space s = s" by simp
  from Cons have "hd (rev s) = last s" by (metis hd_rev list.distinct(1))
  with l have 2: "dropWhile is_space (rev s) = rev s"
    unfolding dropWhile_eq_self_iff by simp
  show ?thesis by (simp add: trim_def 1 2)
qed

text \<open>Reading back the numeral of a whole number of the safe range gives the number.\<close>

lemma StringToNumber_show_int:
  assumes "isSafeInteger i"
  shows "StringToNumber (show_int i) = JNum i"
proof (cases "i < 0")
  case True
  have d: "list_all is_digit (show_nat (nat (- i)))" and ne: "show_nat (nat (- i)) \<noteq> []"
    using show_nat_digits by auto
  have "trim (CHR ''-'' # show_nat (nat (- i))) = CHR ''-'' # show_nat (nat (- i))"
  proof -
    have a: "dropWhile is_space (CHR ''-'' # show_nat (nat (- i))) = CHR ''-'' # show_nat (nat (- i))"
      by (simp add: is_space_def)
    have "\<not> is_space (last (show_nat (nat (- i))))"
      using d ne by (simp add: not_space_digit list_all_iff)
    then have b: "dropWhile is_space (rev (CHR ''-'' # show_nat (nat (- i)))) = rev (CHR ''-'' # show_nat (nat (- i)))"
      unfolding dropWhile_eq_self_iff using ne by (simp add: hd_rev hd_append)
    show ?thesis unfolding trim_def a b by simp
  qed
  with True show ?thesis
    by (simp add: StringToNumber_def show_int_def parse_nat_show_nat)
next
  case False
  have d: "list_all is_digit (show_nat (nat i))" and ne: "show_nat (nat i) \<noteq> []"
    using show_nat_digits by auto
  have "is_digit (hd (show_nat (nat i)))"
    using d ne by (cases "show_nat (nat i)") auto
  then have "hd (show_nat (nat i)) \<noteq> CHR ''-''" "hd (show_nat (nat i)) \<noteq> CHR ''+''"
    using not_sign_digit by auto
  with False ne show ?thesis
    by (simp add: StringToNumber_def show_int_def trim_digits [OF d] parse_nat_show_nat)
qed

lemma valid_float_digits:
  assumes "s \<noteq> []" "list_all is_digit s"
  shows "valid_float s" "valid_float (CHR ''-'' # s)"
proof -
  from assms have t: "takeWhile is_digit s = s" and d: "dropWhile is_digit s = []"
    by (simp_all add: list_all_iff)
  from assms have "hd s \<noteq> CHR ''-''"
    using not_sign_digit [of "hd s"] by (cases s) auto
  with assms(1) have u: "(case s of [] \<Rightarrow> [] | c # t \<Rightarrow> if c = CHR ''-'' then t else s) = s"
    by (cases s) auto
  show "valid_float s"
    unfolding valid_float_def Let_def u t d using assms(1) by simp
  show "valid_float (CHR ''-'' # s)"
    using assms(1) by (simp add: valid_float_def Let_def t d)
qed

lemma valid_float_show_int: "valid_float (show_int i)"
  using show_nat_digits valid_float_digits by (simp add: show_int_def)

lemma parse_int_unsigned:
  "s \<noteq> [] \<Longrightarrow> hd s \<noteq> CHR ''-'' \<Longrightarrow> parse_int s = map_option int (parse_nat s)"
  by (cases s) (simp_all add: parse_int_def)

lemma parse_int_show_int: "parse_int (show_int i) = Some i"
proof (cases "i < 0")
  case True
  then show ?thesis by (simp add: parse_int_def show_int_def parse_nat_show_nat)
next
  case False
  have d: "list_all is_digit (show_nat (nat i))" and ne: "show_nat (nat i) \<noteq> []"
    using show_nat_digits by auto
  have "is_digit (hd (show_nat (nat i)))"
    using d ne by (cases "show_nat (nat i)") auto
  then have "hd (show_nat (nat i)) \<noteq> CHR ''-''"
    using not_sign_digit by auto
  with False ne show ?thesis
    by (simp add: parse_int_unsigned show_int_def parse_nat_show_nat)
qed

section \<open>Properties of the descriptors\<close>

lemmas setting_defs = value_get_def value_set_def Setting_value_set_def SelectSetting_value_set_def
  inputValue_def saveInput_def resetInput_def settingKey_def

lemmas widget_defs = set_input_value_def set_input_type_def sanitize_def createInput_def
  createSelect_def class_add_def strip_newlines_def

text \<open>
  Claim C1. After the write \<open>value = x\<close> the getter \<open>value\<close> returns \<open>x\<close>, and
  \<open>inputValue\<close> should return \<open>x\<close> as well. For a switch it does not: the setter
  assigns to the \<open>value\<close> of the checkbox, and \<open>inputValue\<close> reads its \<open>checked\<close>
  state. The switch \<open>general.bookmarkManager\<close> (default off) of the registry, built
  over an empty store and then written \<open>true\<close>, stores \<open>true\<close> and still shows off.
\<close>

theorem boolean_write_not_shown:
  "(let (st, g) = BooleanSetting_new ''general.bookmarkManager'' (JBool False) empty_store;
        (st', g') = value_set (JBool True) st g
    in fst (value_get st' g') = JBool True \<and> inputValue st' = JBool False)"
  by (simp add: BooleanSetting_new_def Setting_new_def setting_defs widget_defs gm_defs empty_store_def
       getSettingKey_def PREFIX_def Let_def)

text \<open>The write stores \<open>x\<close> for every descriptor; a switch never shows it.\<close>

lemma write_then_read:
  "fst (value_get (fst (value_set x st g)) (snd (value_set x st g))) = x"
  by (cases "kind st") (simp_all add: setting_defs gm_defs update_conv')

lemma boolean_write_keeps_inputValue:
  "kind st = BooleanSetting \<Longrightarrow> inputValue (fst (value_set x st g)) = inputValue st"
  by (simp add: setting_defs widget_defs)

text \<open>
  The other kinds do show a written value of their type: a text without line breaks, a
  whole number of the safe range in a number field, an option of the list.
\<close>

lemma index_of_Some: "index_of x xs = Some i \<Longrightarrow> i < length xs \<and> xs ! i = x"
  by (induction xs arbitrary: i) (auto split: if_splits)

lemma index_of_mem: "x \<in> set xs \<Longrightarrow> \<exists>i. index_of x xs = Some i"
  by (induction xs) auto

lemma write_shown_string:
  assumes "kind st = StringSetting" "el_type (input st) = TypeText"
      and "CHR 0x0A \<notin> set t" "CHR 0x0D \<notin> set t"
  shows "inputValue (fst (value_set (JStr t) st g)) = JStr t"
  using assms by (auto simp add: setting_defs widget_defs filter_id_conv)

lemma write_shown_number:
  assumes "kind st = NumberSetting" "el_type (input st) = TypeNumber" "isSafeInteger n"
  shows "inputValue (fst (value_set (JNum n) st g)) = JNum n"
  using assms by (simp add: setting_defs widget_defs valid_float_show_int StringToNumber_show_int)

lemma write_shown_select:
  assumes "kind st = SelectSetting" "k \<in> set (sel_options (select_input st))"
  shows "inputValue (fst (value_set (JStr k) st g)) = JStr k"
proof -
  from assms(2) obtain i where i: "index_of k (sel_options (select_input st)) = Some i"
    using index_of_mem by fastforce
  with index_of_Some [OF i] assms(1) show ?thesis
    by (simp add: setting_defs set_select_value_def select_value_def)
qed

text \<open>
  Claim C5. After \<open>saveInput()\<close> the getter \<open>value\<close> should return the
  \<open>inputValue\<close> read before the call. For a number it does not: \<open>inputValue\<close> is
  the number parsed from the field, and \<open>saveInput\<close> stores the text of the field. The
  slider \<open>myCourses.boxesPerRow\<close> of the registry (default 4, from 1 to 10), built over
  an empty store and moved to 7, has the pending value 7, a number, and after
  \<open>saveInput()\<close> the stored value \<open>"7"\<close>, a string.
\<close>

theorem number_save_stores_text:
  "(case SliderSetting_new ''myCourses.boxesPerRow'' (JNum 4) 1 10 None None empty_store of
      None \<Rightarrow> False
    | Some (st, g) \<Rightarrow>
        (let st1 = userEdit (Typed ''7'') st;
             (st2, g2) = saveInput st1 g
         in inputValue st1 = JNum 7 \<and> fst (value_get st2 g2) = JStr ''7''))"
  by code_simp

text \<open>
  A number descriptor in any state stores the text of its field; the other kinds store
  their pending value.
\<close>

lemma number_save_value:
  assumes "kind st = NumberSetting \<or> kind st = SliderSetting"
  shows "fst (value_get (fst (saveInput st g)) (snd (saveInput st g))) = JStr (el_value (input st))"
  using assms by (auto simp add: setting_defs gm_defs update_conv')

lemma save_then_value:
  assumes "kind st \<noteq> NumberSetting" "kind st \<noteq> SliderSetting"
  shows "fst (value_get (fst (saveInput st g)) (snd (saveInput st g))) = inputValue st"
  using assms by (cases "kind st") (simp_all add: setting_defs gm_defs update_conv')

text \<open>\<open>resetInput()\<close> after an edit of a switch shows the stored value again.\<close>

lemma reset_boolean:
  assumes "kind st = BooleanSetting" "fst (value_get st g) = JBool b"
  shows "inputValue (fst (resetInput (userEdit e st) g)) = JBool b"
  using assms by (cases e) (simp_all add: setting_defs userEdit_def gm_defs Let_def split: prod.splits)

text \<open>
  Claim C6. An edit of the control without \<open>saveInput()\<close> leaves what the getter
  \<open>value\<close> returns as it was, for every descriptor and every edit, and \<open>inputValue\<close>
  returns what was entered: the state of a switch, the text of a text field, the chosen
  option of a list, and for a number field or a slider the number whose numeral was
  entered, for the whole numbers that a double holds exactly (the safe integers).
\<close>

theorem edit_without_save:
  "fst (value_get (userEdit e st) g) = fst (value_get st g)
   \<and> (kind st = BooleanSetting \<longrightarrow> inputValue (userEdit (Toggle b) st) = JBool b)
   \<and> (kind st = StringSetting \<longrightarrow> inputValue (userEdit (Typed t) st) = JStr t)
   \<and> ((kind st = NumberSetting \<or> kind st = SliderSetting) \<and> isSafeInteger n \<longrightarrow>
         inputValue (userEdit (Typed (show_int n)) st) = JNum n)
   \<and> (kind st = SelectSetting \<and> i < length (sel_options (select_input st)) \<longrightarrow>
         inputValue (userEdit (Chosen i) st) = JStr (sel_options (select_input st) ! i))"
proof -
  have key: "settingKey (userEdit e st) = settingKey st" and dflt: "defaultValue (userEdit e st) = defaultValue st"
    by (cases e; simp add: settingKey_def userEdit_def)+
  have frame: "fst (value_get (userEdit e st) g) = fst (value_get st g)"
    by (simp add: value_get_def key dflt fst_GM_getValue)
  have switch: "inputValue (userEdit (Toggle b) st) = JBool b" if "kind st = BooleanSetting"
    using that by (simp add: inputValue_def userEdit_def)
  have string: "inputValue (userEdit (Typed t) st) = JStr t" if "kind st = StringSetting"
    using that by (simp add: inputValue_def userEdit_def)
  have number: "inputValue (userEdit (Typed (show_int n)) st) = JNum n"
    if "kind st = NumberSetting \<or> kind st = SliderSetting" "isSafeInteger n"
    using that by (auto simp add: inputValue_def userEdit_def StringToNumber_show_int)
  have select: "inputValue (userEdit (Chosen i) st) = JStr (sel_options (select_input st) ! i)"
    if "kind st = SelectSetting" "i < length (sel_options (select_input st))"
    using that by (simp add: inputValue_def userEdit_def select_value_def)
  from frame switch string number select show ?thesis by blast
qed

lemmas ctor_defs = BooleanSetting_new_def StringSetting_new_def NumberSetting_new_def
  NumberSetting_init_def SelectSetting_new_def SelectSetting_addOptions_def
  SelectSetting_addOption_def Setting_new_def append_option_def getSettingKey_def PREFIX_def
  empty_store_def

theorem edit_without_save_witness:
  "inputValue (userEdit (Toggle False)
      (fst (BooleanSetting_new ''general.fullwidth'' (JBool True) empty_store))) = JBool False
 \<and> fst (value_get (userEdit (Toggle False)
      (fst (BooleanSetting_new ''general.fullwidth'' (JBool True) empty_store)))
      (snd (BooleanSetting_new ''general.fullwidth'' (JBool True) empty_store))) = JBool True
 \<and> inputValue (userEdit (Typed ''soon'')
      (fst (StringSetting_new ''dashboard.~layoutPlaceholder'' (JStr ''Coming soon...'') empty_store)))
    = JStr ''soon''
 \<and> inputValue (userEdit (Typed (show_int 7))
      (fst (NumberSetting_new ''myCourses.boxesPerRow'' (JNum 4) (Some 1) (Some 10) None empty_store)))
    = JNum 7
 \<and> inputValue (userEdit (Chosen 1)
      (fst (SelectSetting_addOptions [''off'', ''on'', ''auto'']
         (fst (SelectSetting_new ''darkmode.mode'' (JStr ''off'') empty_store))
         (snd (SelectSetting_new ''darkmode.mode'' (JStr ''off'') empty_store))))) = JStr ''on''"
  using edit_without_save [of "Toggle False"
          "fst (BooleanSetting_new ''general.fullwidth'' (JBool True) empty_store)"
          "snd (BooleanSetting_new ''general.fullwidth'' (JBool True) empty_store)" False]
        edit_without_save [where t = "''soon''" and st = "fst (StringSetting_new
          ''dashboard.~layoutPlaceholder'' (JStr ''Coming soon...'') empty_store)"]
        edit_without_save [where n = 7 and st = "fst (NumberSetting_new
          ''myCourses.boxesPerRow'' (JNum 4) (Some 1) (Some 10) None empty_store)"]
        edit_without_save [where i = 1 and st = "fst (SelectSetting_addOptions [''off'', ''on'', ''auto'']
         (fst (SelectSetting_new ''darkmode.mode'' (JStr ''off'') empty_store))
         (snd (SelectSetting_new ''darkmode.mode'' (JStr ''off'') empty_store)))"]
  by (simp add: ctor_defs setting_defs widget_defs gm_defs userEdit_def Let_def isSafeInteger_def)

section \<open>Properties of the disabled states\<close>

lemmas toggle_defs = toggleDisabled_def Setting_toggleDisabled_def SelectSetting_toggleDisabled_def

lemma upt_two: "[0..<2] = [0, Suc 0]"
  by (simp add: upt_rec)

text \<open>
  Toggling depends on the predicate only through its result, always succeeds when the
  predicate does, sets the flags to the result and leaves the pending value alone.
\<close>

lemma toggleDisabled_cong:
  "f m = Inr d \<Longrightarrow> toggleDisabled f m st = toggleDisabled (\<lambda>_. Inr d) m' st"
  by (cases "kind st") (simp_all add: toggle_defs)

lemma toggleDisabled_total: "\<exists>st'. toggleDisabled (\<lambda>_. Inr d) m st = Inr (d, st')"
  by (cases "kind st") (simp_all add: toggle_defs)

lemma toggleDisabled_props:
  assumes "toggleDisabled (\<lambda>_. Inr d) m st = Inr (d', st')"
  shows "d' = d \<and> el_disabled (input st') = d \<and> inputValue st' = inputValue st
       \<and> setting_id st' = setting_id st \<and> kind st' = kind st
       \<and> (kind st = SelectSetting \<longrightarrow> sel_disabled (select_input st') = d)"
  using assms
  by (cases "kind st") (auto simp add: toggle_defs inputValue_def select_value_def split: option.splits)

lemma settingsById_two:
  "settingsById [Descriptor X f, Descriptor Y g] = map_of [(setting_id Y, Y), (setting_id X, X)]"
  by (simp add: settingsById_def List.map_filter_def)

lemma updateDisabledStates_two:
  "updateDisabledStates [e1, e2] =
     (case toggle_at 0 [e1, e2] of Inl e \<Rightarrow> Inl e | Inr cur \<Rightarrow> toggle_at (Suc 0) cur)"
  by (simp add: updateDisabledStates_def upt_two)

text \<open>
  Claim C7. Let \<open>A\<close> be a switch and \<open>B\<close> any descriptor with another id, disabled
  by \<open>s => !s[A].inputValue\<close>. After the pending value of \<open>A\<close> is set to \<open>b\<close>, one
  pass of \<open>updateDisabledStates\<close> leaves \<open>B\<close> disabled exactly when \<open>b\<close> is off and
  \<open>A\<close> enabled, the pending values as they were, and the two descriptors in the same
  state whether \<open>A\<close> or \<open>B\<close> is registered first.
\<close>

theorem disabled_states_order_independent:
  assumes "kind A = BooleanSetting" "setting_id B \<noteq> setting_id A"
  shows "\<exists>A' B'.
     updateDisabledStates [Descriptor (userEdit (Toggle b) A) never_disabled,
                           Descriptor B (not_inputValue_of (setting_id A))]
        = Inr [Descriptor A' never_disabled, Descriptor B' (not_inputValue_of (setting_id A))]
   \<and> updateDisabledStates [Descriptor B (not_inputValue_of (setting_id A)),
                           Descriptor (userEdit (Toggle b) A) never_disabled]
        = Inr [Descriptor B' (not_inputValue_of (setting_id A)), Descriptor A' never_disabled]
   \<and> el_disabled (input B') = (\<not> b) \<and> el_disabled (input A') = False
   \<and> inputValue A' = JBool b \<and> inputValue B' = inputValue B
   \<and> (kind B = SelectSetting \<longrightarrow> sel_disabled (select_input B') = (\<not> b))"
proof -
  define A1 where "A1 = userEdit (Toggle b) A"
  define fB where "fB = not_inputValue_of (setting_id A)"
  have A1: "setting_id A1 = setting_id A" "inputValue A1 = JBool b"
    using assms by (simp_all add: A1_def userEdit_def inputValue_def)
  obtain A' where A': "toggleDisabled (\<lambda>_. Inr False) Map.empty A1 = Inr (False, A')"
    using toggleDisabled_total by blast
  obtain B' where B': "toggleDisabled (\<lambda>_. Inr (\<not> b)) Map.empty B = Inr (\<not> b, B')"
    using toggleDisabled_total by blast
  note pA = toggleDisabled_props [OF A'] and pB = toggleDisabled_props [OF B']
  have nd: "\<And>m. toggleDisabled never_disabled m A1 = Inr (False, A')"
    using toggleDisabled_cong [of never_disabled _ False A1 Map.empty] A'
    by (simp add: never_disabled_def)
  have fb: "\<And>m a. m (setting_id A) = Some a \<Longrightarrow> inputValue a = JBool b
              \<Longrightarrow> toggleDisabled fB m B = Inr (\<not> b, B')"
    using toggleDisabled_cong [of fB _ "\<not> b" B Map.empty] B'
    by (simp add: fB_def not_inputValue_of_def)
  have 1: "updateDisabledStates [Descriptor A1 never_disabled, Descriptor B fB]
        = Inr [Descriptor A' never_disabled, Descriptor B' fB]"
  proof -
    have a: "toggle_at 0 [Descriptor A1 never_disabled, Descriptor B fB]
             = Inr [Descriptor A' never_disabled, Descriptor B fB]"
      by (simp add: toggle_at_def nd)
    have "settingsById [Descriptor A' never_disabled, Descriptor B fB] (setting_id A) = Some A'"
      using assms pA A1 by (simp add: settingsById_two)
    then have b: "toggle_at (Suc 0) [Descriptor A' never_disabled, Descriptor B fB]
             = Inr [Descriptor A' never_disabled, Descriptor B' fB]"
      using fb [of _ A'] pA A1 by (simp add: toggle_at_def)
    show ?thesis by (simp only: updateDisabledStates_two a b sum.case)
  qed
  have 2: "updateDisabledStates [Descriptor B fB, Descriptor A1 never_disabled]
        = Inr [Descriptor B' fB, Descriptor A' never_disabled]"
  proof -
    have "settingsById [Descriptor B fB, Descriptor A1 never_disabled] (setting_id A) = Some A1"
      using assms A1 by (simp add: settingsById_two)
    then have a: "toggle_at 0 [Descriptor B fB, Descriptor A1 never_disabled]
             = Inr [Descriptor B' fB, Descriptor A1 never_disabled]"
      using fb [of _ A1] A1 by (simp add: toggle_at_def)
    have b: "toggle_at (Suc 0) [Descriptor B' fB, Descriptor A1 never_disabled]
             = Inr [Descriptor B' fB, Descriptor A' never_disabled]"
      by (simp add: toggle_at_def nd)
    show ?thesis by (simp only: updateDisabledStates_two a b sum.case)
  qed
  show ?thesis
    using 1 2 pA pB A1 unfolding A1_def fB_def by auto
qed

theorem disabled_states_order_independent_witness:
  "\<exists>A' B'.
     updateDisabledStates
       [Descriptor (userEdit (Toggle True) (fst (BooleanSetting_new ''A'' (JBool False) empty_store)))
          never_disabled,
        Descriptor (fst (StringSetting_new ''B'' (JStr ''text'') empty_store)) (not_inputValue_of ''A'')]
        = Inr [Descriptor A' never_disabled, Descriptor B' (not_inputValue_of ''A'')]
   \<and> updateDisabledStates
       [Descriptor (fst (StringSetting_new ''B'' (JStr ''text'') empty_store)) (not_inputValue_of ''A''),
        Descriptor (userEdit (Toggle True) (fst (BooleanSetting_new ''A'' (JBool False) empty_store)))
          never_disabled]
        = Inr [Descriptor B' (not_inputValue_of ''A''), Descriptor A' never_disabled]
   \<and> el_disabled (input B') = False \<and> el_disabled (input A') = False
   \<and> inputValue A' = JBool True"
proof -
  have k: "kind (fst (BooleanSetting_new ''A'' (JBool False) empty_store)) = BooleanSetting"
    and i: "setting_id (fst (BooleanSetting_new ''A'' (JBool False) empty_store)) = ''A''"
    and j: "setting_id (fst (StringSetting_new ''B'' (JStr ''text'') empty_store)) = ''B''"
    by (simp_all add: ctor_defs setting_defs gm_defs Let_def)
  have d: "setting_id (fst (StringSetting_new ''B'' (JStr ''text'') empty_store))
           \<noteq> setting_id (fst (BooleanSetting_new ''A'' (JBool False) empty_store))"
    by (simp add: i j)
  from disabled_states_order_independent [OF k d, of True]
  show ?thesis unfolding i by auto
qed

text \<open>
  The general fact behind it. When every predicate of a registry reads pending values
  only and none throws, a pass toggles each descriptor against the index as it was
  before the pass; and then any reordering of a registry with distinct ids leaves every
  descriptor in the same state.
\<close>

lemma settingsById_pairs: "settingsById reg = map_of (rev (id_pairs reg))"
  by (simp add: settingsById_def id_pairs_def)

lemma toggleDisabled_without_flags:
  assumes "toggleDisabled f m st = Inr (d, st')"
  shows "without_flags st' = without_flags st \<and> setting_id st' = setting_id st"
  using assms
  by (cases "kind st") (auto simp add: toggle_defs without_flags_def split: sum.splits)

lemma strip_toggled: "strip_entry (toggled_entry m e) = strip_entry e"
proof (cases e)
  case (Heading h)
  then show ?thesis by simp
next
  case (Descriptor st f)
  then show ?thesis
    by (cases "toggleDisabled f m st") (auto simp add: toggleDisabled_without_flags)
qed

lemma id_pairs_strip:
  "id_pairs (map strip_entry reg) = map (\<lambda>(i, st). (i, without_flags st)) (id_pairs reg)"
proof (induction reg)
  case Nil
  then show ?case by (simp add: id_pairs_def List.map_filter_def)
next
  case (Cons e reg)
  then show ?case
    by (cases e) (simp_all add: id_pairs_def List.map_filter_def without_flags_def)
qed

lemma settingsById_strip:
  "settingsById (map strip_entry reg) = (\<lambda>i. map_option without_flags (settingsById reg i))"
  by (simp add: settingsById_pairs id_pairs_strip rev_map map_of_map fun_eq_iff)

lemma pending_only_same:
  assumes "pending_only f" "map strip_entry cur = map strip_entry reg"
  shows "f (settingsById cur) = f (settingsById reg)"
proof -
  have "f (settingsById cur) = f (settingsById (map strip_entry cur))"
    using assms(1) unfolding pending_only_def settingsById_strip by blast
  also have "\<dots> = f (settingsById (map strip_entry reg))" by (simp add: assms(2))
  also have "\<dots> = f (settingsById reg)"
    using assms(1) unfolding pending_only_def settingsById_strip by metis
  finally show ?thesis .
qed

lemma toggleDisabled_same_result:
  "f m = f m' \<Longrightarrow> toggleDisabled f m st = toggleDisabled f m' st"
  by (cases "kind st") (simp_all add: toggle_defs)

lemma pass_prefix:
  assumes po: "\<forall>e \<in> set reg. pending_only_entry e"
      and ok: "\<forall>e \<in> set reg. succeeds_on (settingsById reg) e"
      and i: "i \<le> length reg"
  shows "fold (\<lambda>i r. case r of Inl e \<Rightarrow> Inl e | Inr cur \<Rightarrow> toggle_at i cur) [0..<i] (Inr reg)
         = Inr (map (toggled_entry (settingsById reg)) (take i reg) @ drop i reg)"
  using i
proof (induction i)
  case 0
  then show ?case by simp
next
  case (Suc i)
  let ?T = "toggled_entry (settingsById reg)"
  let ?cur = "map ?T (take i reg) @ drop i reg"
  from Suc have il: "i < length reg" by simp
  have len: "length (map ?T (take i reg)) = i" using il by simp
  have cur_i: "?cur ! i = reg ! i"
    using il by (simp add: nth_append)
  have strip: "map strip_entry ?cur = map strip_entry reg"
  proof -
    have "map strip_entry ?cur = map strip_entry (take i reg) @ map strip_entry (drop i reg)"
      by (simp add: strip_toggled comp_def)
    then show ?thesis by (simp add: map_append [symmetric] del: map_append)
  qed
  have mem: "reg ! i \<in> set reg" using il by simp
  have dr: "drop i reg = reg ! i # drop (Suc i) reg"
    using il by (simp add: Cons_nth_drop_Suc)
  have tk: "take (Suc i) reg = take i reg @ [reg ! i]"
    using il by (simp add: take_Suc_conv_app_nth)
  have step: "toggle_at i ?cur = Inr (map ?T (take (Suc i) reg) @ drop (Suc i) reg)"
  proof (cases "reg ! i")
    case (Heading h)
    have "?cur = map ?T (take (Suc i) reg) @ drop (Suc i) reg"
      unfolding tk dr using Heading by simp
    then show ?thesis using Heading cur_i by (simp add: toggle_at_def)
  next
    case (Descriptor st f)
    from po mem Descriptor have "pending_only f" by force
    from pending_only_same [OF this strip]
    have eq: "toggleDisabled f (settingsById ?cur) st = toggleDisabled f (settingsById reg) st"
      by (rule toggleDisabled_same_result)
    from ok mem Descriptor obtain d where d: "f (settingsById reg) = Inr d"
      by (force split: sum.splits)
    obtain st' where st': "toggleDisabled f (settingsById reg) st = Inr (d, st')"
      using toggleDisabled_cong [of f "settingsById reg" d st Map.empty] d
            toggleDisabled_total [of d Map.empty st] by auto
    have "?cur[i := Descriptor st' f] = map ?T (take (Suc i) reg) @ drop (Suc i) reg"
      unfolding tk dr using Descriptor st' len
      by (simp add: list_update_append del: length_map)
    then show ?thesis
      using Descriptor cur_i eq st' by (simp add: toggle_at_def del: length_map)
  qed
  have "[0..<Suc i] = [0..<i] @ [i]" by simp
  then show ?case
    using Suc.IH il step by (simp del: upt_Suc)
qed

lemma updateDisabledStates_pending_only:
  assumes "\<forall>e \<in> set reg. pending_only_entry e"
      and "\<forall>e \<in> set reg. succeeds_on (settingsById reg) e"
  shows "updateDisabledStates reg = Inr (map (toggled_entry (settingsById reg)) reg)"
  using pass_prefix [OF assms, of "length reg"] by (simp add: updateDisabledStates_def)

lemma mset_map_filter:
  "mset xs = mset ys \<Longrightarrow> mset (List.map_filter g xs) = mset (List.map_filter g ys)"
  by (metis List.map_filter_def mset_filter mset_map)

lemma settingsById_permuted:
  assumes "mset reg' = mset reg" "distinct (map fst (id_pairs reg))"
  shows "settingsById reg' = settingsById reg"
proof -
  have m: "mset (id_pairs reg') = mset (id_pairs reg)"
    unfolding id_pairs_def using assms(1) by (rule mset_map_filter)
  then have "mset (map fst (id_pairs reg')) = mset (map fst (id_pairs reg))"
    by (metis mset_map)
  with assms(2) have d: "distinct (map fst (id_pairs reg'))"
    by (metis mset_eq_imp_distinct_iff)
  have s: "set (rev (id_pairs reg')) = set (rev (id_pairs reg))"
    using m by (metis set_rev mset_eq_setD)
  have "distinct (map fst (rev (id_pairs reg')))" "distinct (map fst (rev (id_pairs reg)))"
    using d assms(2) by (simp_all add: rev_map [symmetric])
  then show ?thesis
    unfolding settingsById_pairs using s by (simp add: map_of_inject_set)
qed

lemma updateDisabledStates_permuted:
  assumes "mset reg' = mset reg" "distinct (map fst (id_pairs reg))"
      and "\<forall>e \<in> set reg. pending_only_entry e"
      and "\<forall>e \<in> set reg. succeeds_on (settingsById reg) e"
  shows "updateDisabledStates reg = Inr (map (toggled_entry (settingsById reg)) reg)
       \<and> updateDisabledStates reg' = Inr (map (toggled_entry (settingsById reg)) reg')"
proof -
  have s: "settingsById reg' = settingsById reg"
    using settingsById_permuted [OF assms(1,2)] .
  have e: "set reg' = set reg" using assms(1) by (rule mset_eq_setD)
  show ?thesis
    using updateDisabledStates_pending_only [OF assms(3,4)]
          updateDisabledStates_pending_only [of reg'] assms(3,4) s e
    by simp
qed

text \<open>The predicates of the registry that depend on a switch read pending values only.\<close>

lemma inputValue_without_flags: "inputValue (without_flags st) = inputValue st"
  by (cases "kind st")
     (simp_all add: inputValue_def without_flags_def select_value_def split: option.splits)

lemma pending_only_never_disabled: "pending_only never_disabled"
  by (simp add: pending_only_def never_disabled_def)

lemma pending_only_not_inputValue_of: "pending_only (not_inputValue_of i)"
  by (auto simp add: pending_only_def not_inputValue_of_def inputValue_without_flags
      split: option.splits)


section \<open>Properties of the slider\<close>

lemma upt_shift: "[0..<Suc n] = 0 # map Suc [0..<n]"
  by (simp add: upt_conv_Cons map_Suc_upt del: upt_Suc)

text \<open>
  With a positive increment the loop of the model ends and yields the values
  \<open>cur, cur + inc, \<dots>\<close> up to \<open>mx\<close>.
\<close>

lemma stepLoop_pos:
  assumes "0 < inc"
  shows "stepLoop cur mx inc acc =
          Some (acc @ map (\<lambda>k. cur + of_nat k * inc)
                          [0..<(if cur \<le> mx then nat \<lfloor>(mx - cur) / inc\<rfloor> + 1 else 0)])"
proof (induction "if cur \<le> mx then nat \<lfloor>(mx - cur) / inc\<rfloor> + 1 else 0" arbitrary: cur acc)
  case 0
  then have "\<not> cur \<le> mx" by (simp split: if_splits)
  then show ?case by (subst stepLoop.simps) simp
next
  case (Suc n)
  then have le: "cur \<le> mx" and n: "n = nat \<lfloor>(mx - cur) / inc\<rfloor>"
    by (simp_all split: if_splits)
  have q: "(mx - (cur + inc)) / inc = (mx - cur) / inc - 1"
    using assms by (simp add: field_simps)
  have cnt: "n = (if cur + inc \<le> mx then nat \<lfloor>(mx - (cur + inc)) / inc\<rfloor> + 1 else 0)"
  proof (cases "cur + inc \<le> mx")
    case True
    then have "1 \<le> (mx - cur) / inc" using assms by (simp add: field_simps)
    then have "1 \<le> \<lfloor>(mx - cur) / inc\<rfloor>" by (simp add: le_floor_iff)
    then show ?thesis using True n unfolding q by (simp add: nat_diff_distrib')
  next
    case False
    then have "(mx - cur) / inc < 1" using assms by (simp add: field_simps)
    moreover have "0 \<le> (mx - cur) / inc" using assms le by simp
    ultimately have "\<lfloor>(mx - cur) / inc\<rfloor> = 0" by (simp add: floor_eq_iff)
    then show ?thesis using False n by simp
  qed
  have "stepLoop cur mx inc acc = stepLoop (cur + inc) mx inc (acc @ [cur])"
    using le by (subst stepLoop.simps) simp
  also have "\<dots> = Some ((acc @ [cur]) @ map (\<lambda>k. (cur + inc) + of_nat k * inc) [0..<n])"
    using Suc.hyps(1) [OF cnt] cnt by simp
  also have "(acc @ [cur]) @ map (\<lambda>k. (cur + inc) + of_nat k * inc) [0..<n]
           = acc @ map (\<lambda>k. cur + of_nat k * inc) [0..<Suc n]"
    by (simp add: upt_shift comp_def algebra_simps del: upt_Suc)
  finally show ?case using Suc.hyps(2) [symmetric] by simp
qed

text \<open>With an increment that is not positive the loop, once entered, never ends.\<close>

lemma stepLoop_returns:
  assumes "stepLoop cur mx inc acc = Some ys"
  shows "inc \<le> 0 \<longrightarrow> mx < cur"
proof (rule stepLoop.raw_induct [where P = "\<lambda>cur mx inc acc ys. inc \<le> 0 \<longrightarrow> mx < cur", OF _ assms])
  fix f :: "rat \<Rightarrow> rat \<Rightarrow> rat \<Rightarrow> rat list \<Rightarrow> rat list option"
    and c m i :: rat and a ys' :: "rat list"
  assume ih: "\<And>c m i a y. f c m i a = Some y \<Longrightarrow> i \<le> 0 \<longrightarrow> m < c"
    and step: "(if c \<le> m then f (c + i) m i (a @ [c]) else Some a) = Some ys'"
  show "i \<le> 0 \<longrightarrow> m < c"
  proof (intro impI, rule ccontr)
    assume i: "i \<le> 0" and "\<not> m < c"
    then have le: "c \<le> m" by simp
    with step have "f (c + i) m i (a @ [c]) = Some ys'" by simp
    from ih [OF this] i le show False by simp
  qed
qed

lemma stepLoop_diverges:
  assumes "inc \<le> 0" "cur \<le> mx"
  shows "stepLoop cur mx inc acc = None"
proof (cases "stepLoop cur mx inc acc")
  case None
  then show ?thesis .
next
  case (Some ys)
  from stepLoop_returns [OF Some] assms show ?thesis by simp
qed

text \<open>A slider whose bounds coincide is never built: its label loop does not advance.\<close>

lemma slider_of_one_value_diverges:
  "SliderSetting_labelDatalist mn mn step labels = None"
proof -
  have "2 \<le> labelCount_of mn mn step labels"
    by (auto simp add: labelCount_of_def split: option.splits)
  then show ?thesis
    by (simp add: SliderSetting_labelDatalist_def stepLoop_quot_def stepLoop_diverges)
qed

lemma labelCount_of_bounds:
  "2 \<le> labelCount_of mn mx step labels \<and> labelCount_of mn mx step labels \<le> 10"
  by (auto simp add: labelCount_of_def split: option.splits)

text \<open>The labels of the slider from 1 to 10 for any requested count.\<close>

lemma labels_1_10:
  "SliderSetting_labelDatalist 1 10 step labels =
           Some (map (\<lambda>k. 1 + of_nat k * (9 / (labelCount_of 1 10 step labels - 1)))
                     [0..<nat \<lfloor>labelCount_of 1 10 step labels\<rfloor>])"
proof -
  define c where "c = labelCount_of 1 10 step labels"
  have c: "2 \<le> c" "c \<le> 10" using labelCount_of_bounds by (simp_all add: c_def)
  then have pos: "0 < 9 / (c - 1)" and nz: "c - 1 \<noteq> 0" by simp_all
  have q: "(10 - 1) / (9 / (c - 1)) = c - 1" using c by simp
  have "nat \<lfloor>c - 1\<rfloor> + 1 = nat \<lfloor>c\<rfloor>"
  proof -
    have f: "2 \<le> \<lfloor>c\<rfloor>" using c by (simp add: le_floor_iff)
    have "\<lfloor>c - 1\<rfloor> = \<lfloor>c\<rfloor> - 1" by simp
    with f show ?thesis by linarith
  qed
  then have cnt: "(if (1::rat) \<le> 10 then nat \<lfloor>(10 - 1) / (9 / (c - 1))\<rfloor> + 1 else 0) = nat \<lfloor>c\<rfloor>"
    unfolding q by simp
  have loop: "stepLoop 1 10 (9 / (c - 1)) []
              = Some (map (\<lambda>k. 1 + of_nat k * (9 / (c - 1))) [0..<nat \<lfloor>c\<rfloor>])"
    using stepLoop_pos [OF pos, of 1 10 "[]"] unfolding cnt by simp
  have "SliderSetting_labelDatalist 1 10 step labels = stepLoop 1 10 (9 / (c - 1)) []"
    using nz by (simp add: SliderSetting_labelDatalist_def stepLoop_quot_def c_def [symmetric] Let_def)
  with loop show ?thesis by (simp add: c_def)
qed

lemma Slider_labelDatalist_count:
  "Slider_labelDatalist mn mx step (map_option LabelCount labels)
   = SliderSetting_labelDatalist mn mx step labels"
  by (cases labels)
     (simp_all add: Slider_labelDatalist_def SliderSetting_labelDatalist_def Slider_labelCount_def)

lemma ticks_1_10:
  "SliderSetting_datalist 1 10 1 = Some [1, 2, 3, 4, 5, 6, 7, 8, 9, 10]"
  "Slider_datalist 1 10 1 = Some [1, 2, 3, 4, 5, 6, 7, 8, 9, 10]"
  by (simp_all add: SliderSetting_datalist_def Slider_datalist_def stepLoop.simps)

lemma labels_10:
  "SliderSetting_labelDatalist 1 10 1 (Some 10) = Some [1, 2, 3, 4, 5, 6, 7, 8, 9, 10]"
  by (simp add: SliderSetting_labelDatalist_def stepLoop_quot_def labelCount_of_def stepLoop.simps)

lemma labelCount_of_int:
  "labelCount_of mn mx step (Some (of_int n)) = of_int (max 2 (min 10 n))"
proof -
  have "max 2 (min 10 (of_int n :: rat)) = of_int (max 2 (min 10 n))"
    by (simp add: max_def min_def)
  then show ?thesis by (simp add: labelCount_of_def)
qed

lemma last_label:
  fixes c :: int
  assumes "2 \<le> c"
  shows "last (map (\<lambda>k. 1 + of_nat k * (9 / (of_int c - 1))) [0..<nat c]) = (10 :: rat)"
proof -
  from assms obtain m where m: "nat c = Suc m" "int m = c - 1"
    by (cases "nat c") auto
  have "(of_int c :: rat) - 1 = of_nat m"
    using m(2) by (metis of_int_of_nat_eq of_int_diff of_int_1)
  moreover have "m \<noteq> 0" using m assms by auto
  ultimately show ?thesis using m(1) by simp
qed

text \<open>
  Claim C8. For the slider with \<open>min = 1\<close>, \<open>max = 10\<close>, \<open>step = 1\<close> the tick list
  holds the ten values 1 to 10, in \<open>SliderSetting\<close> and in \<open>Slider\<close>, and so does the
  label list for ten requested labels. For any requested number of labels, given or left
  out, the label list holds between 2 and 10 values, the values
  \<open>1 + k * 9 / (c - 1)\<close> for the clamped count \<open>c\<close>; for a whole number \<open>n\<close> of
  requested labels they are as many as the clamped \<open>n\<close>, the first is 1 and the last
  is 10.
\<close>

theorem slider_ticks_and_labels:
  "SliderSetting_datalist 1 10 1 = Some [1, 2, 3, 4, 5, 6, 7, 8, 9, 10]
 \<and> Slider_datalist 1 10 1 = Some [1, 2, 3, 4, 5, 6, 7, 8, 9, 10]
 \<and> SliderSetting_labelDatalist 1 10 1 (Some 10) = Some [1, 2, 3, 4, 5, 6, 7, 8, 9, 10]
 \<and> (let c = labelCount_of 1 10 1 labels;
         ls = map (\<lambda>k. 1 + of_nat k * (9 / (c - 1))) [0..<nat \<lfloor>c\<rfloor>]
     in SliderSetting_labelDatalist 1 10 1 labels = Some ls
      \<and> Slider_labelDatalist 1 10 1 (map_option LabelCount labels) = Some ls
      \<and> 2 \<le> length ls \<and> length ls \<le> 10)
 \<and> (let c = max 2 (min 10 n);
         ls = map (\<lambda>k. 1 + of_nat k * (9 / (of_int c - 1))) [0..<nat c]
     in SliderSetting_labelDatalist 1 10 1 (Some (of_int n)) = Some ls
      \<and> length ls = nat c \<and> hd ls = 1 \<and> last ls = 10)"
proof -
  define c where "c = labelCount_of 1 10 1 labels"
  have cb: "2 \<le> c" "c \<le> 10" using labelCount_of_bounds by (simp_all add: c_def)
  then have "2 \<le> \<lfloor>c\<rfloor>" "\<lfloor>c\<rfloor> \<le> 10" by (simp_all add: le_floor_iff floor_le_iff)
  then have len: "2 \<le> nat \<lfloor>c\<rfloor>" "nat \<lfloor>c\<rfloor> \<le> 10" by linarith+
  have gen: "SliderSetting_labelDatalist 1 10 1 labels
             = Some (map (\<lambda>k. 1 + of_nat k * (9 / (c - 1))) [0..<nat \<lfloor>c\<rfloor>])"
    using labels_1_10 [of 1 labels] by (simp add: c_def)
  define d where "d = max 2 (min 10 n)"
  have d: "2 \<le> d" by (simp add: d_def)
  have int: "SliderSetting_labelDatalist 1 10 1 (Some (of_int n))
             = Some (map (\<lambda>k. 1 + of_nat k * (9 / (of_int d - 1))) [0..<nat d])"
    using labels_1_10 [of 1 "Some (of_int n)"] by (simp add: labelCount_of_int d_def)
  have hd: "hd (map (\<lambda>k. 1 + of_nat k * (9 / (of_int d - 1))) [0..<nat d]) = (1 :: rat)"
    using d by (simp add: hd_map upt_conv_Cons)
  show ?thesis
    unfolding Let_def c_def [symmetric] d_def [symmetric]
    using ticks_1_10 labels_10 gen len int hd last_label [OF d]
    by (simp add: Slider_labelDatalist_count)
qed

text \<open>
  A list of label keys given to \<open>Slider\<close> is not clamped: nineteen keys give nineteen
  labels, half a unit apart (steps that doubles add exactly).
\<close>

lemma label_keys_not_clamped:
  assumes "length ks = 19"
  shows "\<exists>ls. Slider_labelDatalist 1 10 1 (Some (LabelKeys ks)) = Some ls \<and> length ls = 19"
proof -
  have "(0::rat) < 1 / 2" by simp
  from stepLoop_pos [OF this, of 1 10 "[]"] assms show ?thesis
    by (simp add: Slider_labelDatalist_def Slider_labelCount_def stepLoop_quot_def)
qed

section \<open>Properties of the import\<close>

lemma fold_GM_setValue:
  "kv (fold (\<lambda>(key, v). GM_setValue key v) es g) = fold (\<lambda>(key, v). AList.update key v) es (kv g)
 \<and> trace (fold (\<lambda>(key, v). GM_setValue key v) es g) = trace g @ map (\<lambda>(key, v). OpSet key v) es"
  by (induction es arbitrary: g) (auto simp add: GM_setValue_def)

lemma map_of_fold_update:
  "map_of (fold (\<lambda>(key, v). AList.update key v) es al) = map_of al ++ map_of (rev es)"
proof (induction es arbitrary: al)
  case Nil
  then show ?case by simp
next
  case (Cons e es)
  obtain k v where e: "e = (k, v)" by (cases e)
  have "map_of al ++ map_of (rev es @ [(k, v)]) = map_of (AList.update k v al) ++ map_of (rev es)"
    by (auto simp add: update_conv' fun_eq_iff map_add_def split: option.splits)
  then show ?case using Cons [of "AList.update k v al"] by (simp add: e)
qed

text \<open>
  Claim C9. When the text of the file is not valid JSON the handler throws before any
  write: the store, with its record of calls, is as before. When the text parses to an
  object, each of its entries is written, in order, key and value as parsed; with
  distinct keys the store then holds each value under its key, and keys that the object
  does not have are as before.
\<close>

theorem import_all_or_nothing:
  "(JSON_parse text = None \<longrightarrow> importSettings JSON_parse text g = (Some SyntaxError, g))
 \<and> (JSON_parse text = Some (JObj entries) \<longrightarrow>
      fst (importSettings JSON_parse text g) = None
    \<and> trace (snd (importSettings JSON_parse text g)) = trace g @ map (\<lambda>(key, v). OpSet key v) entries
    \<and> (distinct (map fst entries) \<longrightarrow>
          (\<forall>(key, v) \<in> set entries. map_of (kv (snd (importSettings JSON_parse text g))) key = Some v))
    \<and> (\<forall>key. key \<notin> fst ` set entries \<longrightarrow>
          map_of (kv (snd (importSettings JSON_parse text g))) key = map_of (kv g) key))"
proof (intro conjI impI)
  assume "JSON_parse text = None"
  then show "importSettings JSON_parse text g = (Some SyntaxError, g)"
    by (simp add: importSettings_def)
next
  assume p: "JSON_parse text = Some (JObj entries)"
  then have r: "importSettings JSON_parse text g = (None, fold (\<lambda>(key, v). GM_setValue key v) entries g)"
    by (simp add: importSettings_def)
  show "fst (importSettings JSON_parse text g) = None" by (simp add: r)
  show "trace (snd (importSettings JSON_parse text g)) = trace g @ map (\<lambda>(key, v). OpSet key v) entries"
    by (simp add: r fold_GM_setValue)
  have m: "map_of (kv (snd (importSettings JSON_parse text g))) = map_of (kv g) ++ map_of (rev entries)"
    by (simp add: r fold_GM_setValue map_of_fold_update)
  show "\<forall>key. key \<notin> fst ` set entries \<longrightarrow>
          map_of (kv (snd (importSettings JSON_parse text g))) key = map_of (kv g) key"
  proof (intro allI impI)
    fix key assume "key \<notin> fst ` set entries"
    then have "map_of (rev entries) key = None" by (simp add: map_of_eq_None_iff)
    then show "map_of (kv (snd (importSettings JSON_parse text g))) key = map_of (kv g) key"
      unfolding m by (simp add: map_add_def)
  qed
  assume d: "distinct (map fst entries)"
  then have "distinct (map fst (rev entries))" by (simp add: rev_map [symmetric])
  then show "\<forall>(key, v) \<in> set entries. map_of (kv (snd (importSettings JSON_parse text g))) key = Some v"
    unfolding m by (auto simp add: map_add_def split: option.splits)
qed

text \<open>
  A parser that knows one file, \<open>{"seenSettings":1}\<close>, and rejects every other text,
  \<open>{\<close> among them.
\<close>

theorem import_all_or_nothing_witness:
  "importSettings
     (\<lambda>t. if t = [CHR ''{'', CHR 0x22] @ ''seenSettings'' @ [CHR 0x22] @ '':1}''
           then Some (JObj [(''seenSettings'', JNum 1)]) else None)
     ''{'' \<lparr>kv = [(''storageVersion'', JNum 2)], trace = []\<rparr>
   = (Some SyntaxError, \<lparr>kv = [(''storageVersion'', JNum 2)], trace = []\<rparr>)
 \<and> trace (snd (importSettings
     (\<lambda>t. if t = [CHR ''{'', CHR 0x22] @ ''seenSettings'' @ [CHR 0x22] @ '':1}''
           then Some (JObj [(''seenSettings'', JNum 1)]) else None)
     ([CHR ''{'', CHR 0x22] @ ''seenSettings'' @ [CHR 0x22] @ '':1}'')
     \<lparr>kv = [(''storageVersion'', JNum 2)], trace = []\<rparr>))
   = [OpSet ''seenSettings'' (JNum 1)]
 \<and> map_of (kv (snd (importSettings
     (\<lambda>t. if t = [CHR ''{'', CHR 0x22] @ ''seenSettings'' @ [CHR 0x22] @ '':1}''
           then Some (JObj [(''seenSettings'', JNum 1)]) else None)
     ([CHR ''{'', CHR 0x22] @ ''seenSettings'' @ [CHR 0x22] @ '':1}'')
     \<lparr>kv = [(''storageVersion'', JNum 2)], trace = []\<rparr>))) ''seenSettings'' = Some (JNum 1)
 \<and> map_of (kv (snd (importSettings
     (\<lambda>t. if t = [CHR ''{'', CHR 0x22] @ ''seenSettings'' @ [CHR 0x22] @ '':1}''
           then Some (JObj [(''seenSettings'', JNum 1)]) else None)
     ([CHR ''{'', CHR 0x22] @ ''seenSettings'' @ [CHR 0x22] @ '':1}'')
     \<lparr>kv = [(''storageVersion'', JNum 2)], trace = []\<rparr>))) ''storageVersion'' = Some (JNum 2)"
  using import_all_or_nothing [of
          "\<lambda>t. if t = [CHR ''{'', CHR 0x22] @ ''seenSettings'' @ [CHR 0x22] @ '':1}''
           then Some (JObj [(''seenSettings'', JNum 1)]) else None"
          "''{''" "\<lparr>kv = [(''storageVersion'', JNum 2)], trace = []\<rparr>" "[]"]
        import_all_or_nothing [of
          "\<lambda>t. if t = [CHR ''{'', CHR 0x22] @ ''seenSettings'' @ [CHR 0x22] @ '':1}''
           then Some (JObj [(''seenSettings'', JNum 1)]) else None"
          "[CHR ''{'', CHR 0x22] @ ''seenSettings'' @ [CHR 0x22] @ '':1}''"
          "\<lparr>kv = [(''storageVersion'', JNum 2)], trace = []\<rparr>" "[(''seenSettings'', JNum 1)]"]
  by simp

end
